theory Spec2Isabelle
  imports Main "HOL-Library.Word"
begin

unbundle bit_operations_syntax

section \<open>Intel 8155/8156 RAM, I/O ports and timer (devices/machine/i8155.cpp)\<close>

subsection \<open>Constants\<close>

definition COMMAND_PA :: "8 word" where "COMMAND_PA = 0x01"
definition COMMAND_PB :: "8 word" where "COMMAND_PB = 0x02"
definition COMMAND_PC_MASK :: "8 word" where "COMMAND_PC_MASK = 0x0c"
definition COMMAND_PC_ALT_1 :: "8 word" where "COMMAND_PC_ALT_1 = 0x00"
definition COMMAND_PC_ALT_2 :: "8 word" where "COMMAND_PC_ALT_2 = 0x0c"
definition COMMAND_PC_ALT_3 :: "8 word" where "COMMAND_PC_ALT_3 = 0x04"
definition COMMAND_PC_ALT_4 :: "8 word" where "COMMAND_PC_ALT_4 = 0x08"
definition COMMAND_TM_MASK :: "8 word" where "COMMAND_TM_MASK = 0xc0"
definition COMMAND_TM_NOP :: "8 word" where "COMMAND_TM_NOP = 0x00"
definition COMMAND_TM_STOP :: "8 word" where "COMMAND_TM_STOP = 0x40"
definition COMMAND_TM_STOP_AFTER_TC :: "8 word" where "COMMAND_TM_STOP_AFTER_TC = 0x80"
definition COMMAND_TM_START :: "8 word" where "COMMAND_TM_START = 0xc0"

definition STATUS_TIMER :: "8 word" where "STATUS_TIMER = 0x40"

definition TIMER_MODE_MASK :: "8 word" where "TIMER_MODE_MASK = 0xc0"
definition TIMER_MODE_AUTO_RELOAD :: "8 word" where "TIMER_MODE_AUTO_RELOAD = 0x40"
definition TIMER_MODE_TC_PULSE :: "8 word" where "TIMER_MODE_TC_PULSE = 0x80"

text \<open>The anonymous enum of port modes; \<open>get_port_mode\<close> returns an \<open>int\<close>
  that starts at \<open>-1\<close>.\<close>

definition PORT_MODE_INPUT :: int where "PORT_MODE_INPUT = 0"
definition PORT_MODE_OUTPUT :: int where "PORT_MODE_OUTPUT = 1"
definition PORT_MODE_STROBED_PORT_A :: int where "PORT_MODE_STROBED_PORT_A = 2"
definition PORT_MODE_STROBED :: int where "PORT_MODE_STROBED = 3"

definition MEMORY :: int where "MEMORY = 0"
definition IO :: int where "IO = 1"

lemmas i8155_consts =
  COMMAND_PA_def COMMAND_PB_def COMMAND_PC_MASK_def COMMAND_PC_ALT_1_def
  COMMAND_PC_ALT_2_def COMMAND_PC_ALT_3_def COMMAND_PC_ALT_4_def COMMAND_TM_MASK_def
  COMMAND_TM_NOP_def COMMAND_TM_STOP_def COMMAND_TM_STOP_AFTER_TC_def COMMAND_TM_START_def
  STATUS_TIMER_def TIMER_MODE_MASK_def TIMER_MODE_AUTO_RELOAD_def TIMER_MODE_TC_PULSE_def
  PORT_MODE_INPUT_def PORT_MODE_OUTPUT_def PORT_MODE_STROBED_PORT_A_def
  PORT_MODE_STROBED_def MEMORY_def IO_def

subsection \<open>Data model\<close>

datatype port = PORT_A | PORT_B | PORT_C

text \<open>Every invocation of one of the device's seven line callbacks, in the order
  made. The three input callbacks take their value from the host; the four output
  callbacks carry the value driven.\<close>

datatype callback =
    IN_PA | IN_PB | IN_PC
  | OUT_PA "8 word" | OUT_PB "8 word" | OUT_PC "8 word"
  | OUT_TO int

text \<open>What the host's input lines hold when an input callback samples them.\<close>

record host =
  m_in_pa_cb :: "8 word"
  m_in_pb_cb :: "8 word"
  m_in_pc_cb :: "8 word"

text \<open>Modelled from the spec: the two \<open>emu_timer\<close> objects \<open>m_timer\<close> and
  \<open>m_timer_tc\<close> belong to the host scheduler, whose code is not part of the device
  file. Following the spec's "two optional deadline values", each is \<open>None\<close> when
  disabled (\<open>adjust(attotime::never)\<close>, or a one-shot that has fired) and
  \<open>Some n\<close> when it fires \<open>n\<close> base clock ticks from now, so that
  \<open>running()\<close> is \<open>\<noteq> None\<close>, \<open>adjust(clocks_to_attotime(n))\<close> is
  \<open>Some n\<close> and \<open>attotime_to_clocks(remaining())\<close> is \<open>n\<close>. The member types
  (8-bit command, status and latches, 16-bit count registers, \<open>int\<close> output level and
  I/O select) are those of the spec's data model.\<close>

record i8155 =
  m_io_m :: int
  m_ad :: "8 word"
  m_command :: "8 word"
  m_status :: "8 word"
  m_output :: "port \<Rightarrow> 8 word"
  m_ram :: "8 word \<Rightarrow> 8 word"
  m_count_length :: "16 word"
  m_count_loaded :: "16 word"
  m_to :: int
  m_count_even_phase :: bool
  m_timer :: "nat option"
  m_timer_tc :: "nat option"
  cb_log :: "callback list"

definition call :: "callback \<Rightarrow> i8155 \<Rightarrow> i8155" where
  "call c s = s\<lparr>cb_log := cb_log s @ [c]\<rparr>"

subsection \<open>Inline helpers\<close>

definition get_timer_mode :: "i8155 \<Rightarrow> 8 word" where
  "get_timer_mode s = ucast (drop_bit 8 (m_count_loaded s)) AND TIMER_MODE_MASK"

text \<open>The remaining clocks are cast to 16 bits; the rest is \<open>int\<close> arithmetic in the
  source and cannot overflow.\<close>

definition get_timer_count :: "i8155 \<Rightarrow> 16 word" where
  "get_timer_count s =
     (case m_timer s of
        Some r \<Rightarrow>
          word_of_nat (min ((r mod 65536 + 1) * 2) (unat (m_count_loaded s AND 0x3ffe)))
            OR (if m_count_even_phase s then 0 else 1)
      | None \<Rightarrow> m_count_length s)"

definition timer_output :: "int \<Rightarrow> i8155 \<Rightarrow> i8155" where
  "timer_output to s =
     (if to = m_to s then s else call (OUT_TO to) (s\<lparr>m_to := to\<rparr>))"

definition timer_stop_count :: "i8155 \<Rightarrow> i8155" where
  "timer_stop_count s =
     (let s1 = (if m_timer s \<noteq> None
                then s\<lparr>m_count_loaded :=
                         (m_count_loaded s AND push_bit 8 (ucast TIMER_MODE_MASK))
                           OR get_timer_count s,
                       m_timer := None\<rparr>
                else s);
          s2 = s1\<lparr>m_timer_tc := None\<rparr>
      in timer_output 1 s2)"

definition timer_reload_count :: "i8155 \<Rightarrow> i8155" where
  "timer_reload_count s =
     (let s1 = s\<lparr>m_count_loaded := m_count_length s\<rparr>
      in if m_count_length s1 AND 0x3fff < 2 then timer_stop_count s1
         else
           timer_output 1
             (s1\<lparr>m_count_even_phase := False,
                 m_timer := Some (unat (drop_bit 1 (m_count_length s1 AND 0x3ffe))
                                   + unat (m_count_length s1 AND 1))\<rparr>))"

definition get_port_mode :: "port \<Rightarrow> i8155 \<Rightarrow> int" where
  "get_port_mode p s =
     (case p of
        PORT_A \<Rightarrow> if m_command s AND COMMAND_PA \<noteq> 0 then PORT_MODE_OUTPUT else PORT_MODE_INPUT
      | PORT_B \<Rightarrow> if m_command s AND COMMAND_PB \<noteq> 0 then PORT_MODE_OUTPUT else PORT_MODE_INPUT
      | PORT_C \<Rightarrow>
          (let c = m_command s AND COMMAND_PC_MASK
           in if c = COMMAND_PC_ALT_1 then PORT_MODE_INPUT
              else if c = COMMAND_PC_ALT_2 then PORT_MODE_OUTPUT
              else if c = COMMAND_PC_ALT_3 then PORT_MODE_STROBED_PORT_A
              else if c = COMMAND_PC_ALT_4 then PORT_MODE_STROBED
              else - 1))"

definition read_port :: "host \<Rightarrow> port \<Rightarrow> i8155 \<Rightarrow> 8 word \<times> i8155" where
  "read_port h p s =
     (let mode = get_port_mode p s
      in if mode = PORT_MODE_INPUT then
           (case p of
              PORT_A \<Rightarrow> (m_in_pa_cb h, call IN_PA s)
            | PORT_B \<Rightarrow> (m_in_pb_cb h, call IN_PB s)
            | PORT_C \<Rightarrow> (m_in_pc_cb h, call IN_PC s))
         else if mode = PORT_MODE_OUTPUT then (m_output s p, s)
         else (0, s))"

definition write_port :: "port \<Rightarrow> 8 word \<Rightarrow> i8155 \<Rightarrow> i8155" where
  "write_port p data s =
     (let s1 = s\<lparr>m_output := (m_output s)(p := data)\<rparr>
      in if get_port_mode p s1 = PORT_MODE_OUTPUT then
           (case p of
              PORT_A \<Rightarrow> call (OUT_PA (m_output s1 p)) s1
            | PORT_B \<Rightarrow> call (OUT_PB (m_output s1 p)) s1
            | PORT_C \<Rightarrow> call (OUT_PC (m_output s1 p)) s1)
         else s1)"

subsection \<open>Timer event handlers\<close>

definition timer_half_counted :: "i8155 \<Rightarrow> i8155" where
  "timer_half_counted s =
     (if m_count_even_phase s then
        (let s1 = (timer_output 1 s)\<lparr>m_count_even_phase := False\<rparr>
         in if get_timer_mode s1 AND TIMER_MODE_AUTO_RELOAD = 0
               \<or> m_command s1 AND COMMAND_TM_MASK = COMMAND_TM_STOP_AFTER_TC
            then timer_stop_count s1
            else timer_reload_count s1)
      else
        (let s1 = s\<lparr>m_timer := Some (unat (drop_bit 1 (m_count_loaded s AND 0x3ffe))),
                    m_count_even_phase := True\<rparr>
         in if get_timer_mode s1 AND TIMER_MODE_TC_PULSE = 0 then timer_output 0 s1
            else s1\<lparr>m_timer_tc :=
                      Some ((max (unat (m_count_loaded s1 AND 0x3ffe)) 2 - 2) div 2)\<rparr>))"

definition timer_tc :: "i8155 \<Rightarrow> i8155" where
  "timer_tc s =
     (let s1 = (if get_timer_mode s AND TIMER_MODE_TC_PULSE \<noteq> 0 then timer_output 0 s else s)
      in s1\<lparr>m_status := m_status s1 OR STATUS_TIMER\<rparr>)"

subsection \<open>Register interface\<close>

text \<open>\<open>side_effects_disabled\<close> is the machine's flag, passed in; \<open>offs_t\<close> is an
  unsigned 32-bit integer.\<close>

definition io_r :: "bool \<Rightarrow> host \<Rightarrow> 32 word \<Rightarrow> i8155 \<Rightarrow> 8 word \<times> i8155" where
  "io_r side_effects_disabled h offset s =
     (let r = offset AND 0x07
      in if r = 0 then
           (m_status s,
            if \<not> side_effects_disabled then s\<lparr>m_status := m_status s AND NOT STATUS_TIMER\<rparr>
            else s)
         else if r = 1 then read_port h PORT_A s
         else if r = 2 then read_port h PORT_B s
         else if r = 3 then (case read_port h PORT_C s of (d, s') \<Rightarrow> (d OR 0xc0, s'))
         else if r = 4 then (ucast (get_timer_count s AND 0xff), s)
         else if r = 5 then
           (ucast (drop_bit 8 (get_timer_count s) AND 0x3f) OR get_timer_mode s, s)
         else (0, s))"

definition write_command :: "8 word \<Rightarrow> i8155 \<Rightarrow> i8155" where
  "write_command data s =
     (let old_command = m_command s;
          s0 = s\<lparr>m_command := data\<rparr>;
          s1 = (if data AND COMMAND_PA \<noteq> 0 \<and> NOT old_command AND COMMAND_PA \<noteq> 0
                then call (OUT_PA (m_output s0 PORT_A)) s0 else s0);
          s2 = (if data AND COMMAND_PB \<noteq> 0 \<and> NOT old_command AND COMMAND_PB \<noteq> 0
                then call (OUT_PB (m_output s1 PORT_B)) s1 else s1);
          s3 = (if data AND COMMAND_PC_MASK = COMMAND_PC_ALT_2
                   \<and> old_command AND COMMAND_PC_MASK \<noteq> COMMAND_PC_ALT_2
                then call (OUT_PC (m_output s2 PORT_C)) s2 else s2);
          tm = data AND COMMAND_TM_MASK
      in if tm = COMMAND_TM_NOP then s3
         else if tm = COMMAND_TM_STOP then timer_stop_count s3
         else if tm = COMMAND_TM_STOP_AFTER_TC then s3
         else if tm = COMMAND_TM_START then
           (if m_timer s3 \<noteq> None then s3 else timer_reload_count s3)
         else s3)"

text \<open>The \<open>int\<close> offset is only ever masked with 7, so its two's complement bit
  pattern is kept as a 32-bit word.\<close>

definition register_w :: "32 word \<Rightarrow> 8 word \<Rightarrow> i8155 \<Rightarrow> i8155" where
  "register_w offset data s =
     (let r = offset AND 0x07
      in if r = 0 then write_command data s
         else if r = 1 then write_port PORT_A data s
         else if r = 2 then write_port PORT_B data s
         else if r = 3 then write_port PORT_C (data AND 0x3f) s
         else if r = 4 then s\<lparr>m_count_length := (m_count_length s AND 0xff00) OR ucast data\<rparr>
         else if r = 5 then
           s\<lparr>m_count_length := push_bit 8 (ucast data) OR (m_count_length s AND 0xff)\<rparr>
         else s)"

definition io_w :: "32 word \<Rightarrow> 8 word \<Rightarrow> i8155 \<Rightarrow> i8155" where
  "io_w offset data s = register_w offset data s"

definition memory_r :: "32 word \<Rightarrow> i8155 \<Rightarrow> 8 word" where
  "memory_r offset s = m_ram s (ucast (offset AND 0xff))"

definition memory_w :: "32 word \<Rightarrow> 8 word \<Rightarrow> i8155 \<Rightarrow> i8155" where
  "memory_w offset data s = s\<lparr>m_ram := (m_ram s)(ucast (offset AND 0xff) := data)\<rparr>"

definition ale_w :: "32 word \<Rightarrow> 8 word \<Rightarrow> i8155 \<Rightarrow> i8155" where
  "ale_w offset data s = s\<lparr>m_io_m := (if bit offset 0 then 1 else 0), m_ad := data\<rparr>"

definition data_r :: "bool \<Rightarrow> host \<Rightarrow> i8155 \<Rightarrow> 8 word \<times> i8155" where
  "data_r side_effects_disabled h s =
     (if m_io_m s = MEMORY then (memory_r (ucast (m_ad s)) s, s)
      else if m_io_m s = IO then io_r side_effects_disabled h (ucast (m_ad s)) s
      else (0, s))"

definition data_w :: "8 word \<Rightarrow> i8155 \<Rightarrow> i8155" where
  "data_w data s =
     (if m_io_m s = MEMORY then memory_w (ucast (m_ad s)) data s
      else if m_io_m s = IO then io_w (ucast (m_ad s)) data s
      else s)"

subsection \<open>Lifecycle\<close>

text \<open>The state the constructor and \<open>device_start\<close> leave: registers zero, RAM
  cleared, both events allocated and not scheduled, no callback invoked yet. The
  constructor does not initialise \<open>m_io_m\<close> and \<open>m_ad\<close>, so they are parameters.\<close>

definition device_start :: "int \<Rightarrow> 8 word \<Rightarrow> i8155" where
  "device_start io_m ad =
     \<lparr>m_io_m = io_m, m_ad = ad, m_command = 0, m_status = 0, m_output = (\<lambda>_. 0),
      m_ram = (\<lambda>_. 0), m_count_length = 0, m_count_loaded = 0, m_to = 0,
      m_count_even_phase = False, m_timer = None, m_timer_tc = None, cb_log = []\<rparr>"

definition device_reset :: "i8155 \<Rightarrow> i8155" where
  "device_reset s =
     (let s1 = s\<lparr>m_output := ((m_output s)(PORT_A := 0, PORT_B := 0, PORT_C := 0))\<rparr>;
          s2 = register_w 0
                 (m_command s1 AND NOT (COMMAND_PA OR COMMAND_PB OR COMMAND_PC_MASK)) s1;
          s3 = s2\<lparr>m_status := m_status s2 AND NOT STATUS_TIMER\<rparr>
      in timer_stop_count s3)"

subsection \<open>Host scheduler\<close>

text \<open>Modelled from the spec: the host scheduler that owns the two events is not part
  of the device file. The spec has time advance in base clock ticks, an event fire when
  its deadline is reached, before any later bus access, and a one-shot event be
  disabled when its handler runs unless the handler reschedules it. \<open>elapse\<close> moves
  one tick closer to every pending deadline; \<open>execute_timers\<close> runs every handler
  that is due, the terminal-count event first when both are (the device never schedules
  both for the same instant: the terminal-count event is set strictly before the end of
  the even half).\<close>

definition elapse :: "i8155 \<Rightarrow> i8155" where
  "elapse s = s\<lparr>m_timer := map_option (\<lambda>n. n - 1) (m_timer s),
                m_timer_tc := map_option (\<lambda>n. n - 1) (m_timer_tc s)\<rparr>"

definition due_rank :: "i8155 \<Rightarrow> nat" where
  "due_rank s =
     (if m_timer s = Some 0 then (if m_count_even_phase s then 1 else 3) else 0)
       + (if m_timer_tc s = Some 0 then 1 else 0)"

function execute_timers :: "i8155 \<Rightarrow> i8155" where
  "execute_timers s =
     (if m_timer_tc s = Some 0 then execute_timers (timer_tc (s\<lparr>m_timer_tc := None\<rparr>))
      else if m_timer s = Some 0 then execute_timers (timer_half_counted (s\<lparr>m_timer := None\<rparr>))
      else s)"
  by pat_completeness auto
termination
proof (relation "measure due_rank")
  show "wf (measure due_rank)" by simp
next
  fix s :: i8155 assume "m_timer_tc s = Some 0"
  then show "(timer_tc (s\<lparr>m_timer_tc := None\<rparr>), s) \<in> measure due_rank"
    by (simp add: due_rank_def timer_tc_def timer_output_def call_def Let_def)
next
  fix s :: i8155 assume due: "m_timer_tc s \<noteq> Some 0" "m_timer s = Some 0"
  have nz: "unat (drop_bit 1 (w AND 0x3ffe)) + unat (w AND 1) \<noteq> 0"
    if "\<not> w AND 0x3fff < 2" for w :: "16 word"
  proof -
    have m: "(0x3fff :: 16 word) = mask 14" "(0x3ffe :: 16 word) = 2 * mask 13"
      by (simp_all add: mask_eq_exp_minus_1)
    have "drop_bit 1 (w AND 0x3ffe) = drop_bit 1 (w AND 0x3fff)"
      unfolding m by (rule bit_word_eqI) (auto simp: bit_simps bit_double_iff)
    then have "unat (drop_bit 1 (w AND 0x3ffe)) = unat (w AND 0x3fff) div 2"
      by (simp add: drop_bit_eq_div unat_div_distrib)
    moreover have "2 \<le> unat (w AND 0x3fff)"
      using that by (simp add: word_less_nat_alt)
    ultimately show ?thesis by simp
  qed
  show "(timer_half_counted (s\<lparr>m_timer := None\<rparr>), s) \<in> measure due_rank"
    using due nz [of "m_count_length s"]
    by (auto simp add: due_rank_def timer_half_counted_def timer_reload_count_def
        timer_stop_count_def timer_output_def call_def Let_def)
qed

declare execute_timers.simps [simp del]

definition tick :: "i8155 \<Rightarrow> i8155" where
  "tick s = execute_timers (elapse s)"

fun run_clock :: "nat \<Rightarrow> i8155 \<Rightarrow> i8155" where
  "run_clock 0 s = s"
| "run_clock (Suc n) s = run_clock n (tick s)"

subsection \<open>Executions\<close>

text \<open>Everything that can happen to a started device: a reset, one of the public bus
  accessors, or a clock tick of the host.\<close>

datatype bus_op =
    RESET
  | ALE_W "32 word" "8 word"
  | DATA_R bool host
  | DATA_W "8 word"
  | IO_R bool host "32 word"
  | IO_W "32 word" "8 word"
  | MEMORY_W "32 word" "8 word"
  | TICK

fun apply_op :: "bus_op \<Rightarrow> i8155 \<Rightarrow> i8155" where
  "apply_op RESET s = device_reset s"
| "apply_op (ALE_W offset data) s = ale_w offset data s"
| "apply_op (DATA_R sed h) s = snd (data_r sed h s)"
| "apply_op (DATA_W data) s = data_w data s"
| "apply_op (IO_R sed h offset) s = snd (io_r sed h offset s)"
| "apply_op (IO_W offset data) s = io_w offset data s"
| "apply_op (MEMORY_W offset data) s = memory_w offset data s"
| "apply_op TICK s = tick s"

fun run_ops :: "bus_op list \<Rightarrow> i8155 \<Rightarrow> i8155" where
  "run_ops [] s = s"
| "run_ops (x # xs) s = run_ops xs (apply_op x s)"

text \<open>The levels the timer-output callback was invoked with, oldest first.\<close>

fun to_levels :: "callback list \<Rightarrow> int list" where
  "to_levels [] = []"
| "to_levels (OUT_TO v # cs) = v # to_levels cs"
| "to_levels (_ # cs) = to_levels cs"

text \<open>The output callbacks a command write makes for the ports it switches to output
  (the first half of \<open>write_command\<close>), as a list; used to state what a command write
  adds to the callback log.\<close>

definition port_flushes :: "8 word \<Rightarrow> 8 word \<Rightarrow> (port \<Rightarrow> 8 word) \<Rightarrow> callback list" where
  "port_flushes data old_command out =
     (if data AND COMMAND_PA \<noteq> 0 \<and> NOT old_command AND COMMAND_PA \<noteq> 0
      then [OUT_PA (out PORT_A)] else [])
     @ (if data AND COMMAND_PB \<noteq> 0 \<and> NOT old_command AND COMMAND_PB \<noteq> 0
        then [OUT_PB (out PORT_B)] else [])
     @ (if data AND COMMAND_PC_MASK = COMMAND_PC_ALT_2
           \<and> old_command AND COMMAND_PC_MASK \<noteq> COMMAND_PC_ALT_2
        then [OUT_PC (out PORT_C)] else [])"

text \<open>The values the output callback of one port was invoked with, oldest first.\<close>

fun out_value :: "port \<Rightarrow> callback \<Rightarrow> 8 word option" where
  "out_value PORT_A (OUT_PA v) = Some v"
| "out_value PORT_B (OUT_PB v) = Some v"
| "out_value PORT_C (OUT_PC v) = Some v"
| "out_value _ _ = None"

definition port_calls :: "port \<Rightarrow> callback list \<Rightarrow> 8 word list" where
  "port_calls p cs = List.map_filter (out_value p) cs"

text \<open>The timer-output callbacks made so far start from the power-on level 0, never
  repeat a level, carry 0 or 1 only, and end at the level the device holds.\<close>

definition to_inv :: "i8155 \<Rightarrow> bool" where
  "to_inv s \<longleftrightarrow>
     distinct_adj (0 # to_levels (cb_log s))
     \<and> last (0 # to_levels (cb_log s)) = m_to s
     \<and> set (to_levels (cb_log s)) \<subseteq> {0, 1}"

text \<open>The state a reload leaves when the count is valid and the mode has no TC_PULSE
  bit: counting the odd half, output high, terminal-count event not scheduled.\<close>

definition just_reloaded :: "i8155 \<Rightarrow> bool" where
  "just_reloaded r \<longleftrightarrow>
     2 \<le> unat (m_count_length r AND 0x3fff)
     \<and> m_count_loaded r = m_count_length r
     \<and> get_timer_mode r AND TIMER_MODE_TC_PULSE = 0
     \<and> \<not> m_count_even_phase r
     \<and> m_to r = 1
     \<and> m_timer r = Some ((unat (m_count_length r AND 0x3fff) + 1) div 2)
     \<and> m_timer_tc r = None"

text \<open>The order of the two events: while the half-period event is scheduled the loaded
  count is valid, and a scheduled terminal-count event is due strictly before the
  half-period event. \<open>events_pending\<close> adds that no event is due now, as holds
  between two steps of an execution.\<close>

definition events_ordered :: "i8155 \<Rightarrow> bool" where
  "events_ordered s \<longleftrightarrow>
     (m_timer s \<noteq> None \<longrightarrow> 2 \<le> unat (m_count_loaded s AND 0x3fff))
     \<and> (case m_timer_tc s of
          None \<Rightarrow> True
        | Some a \<Rightarrow> (case m_timer s of None \<Rightarrow> False | Some b \<Rightarrow> a < b))"

definition events_pending :: "i8155 \<Rightarrow> bool" where
  "events_pending s \<longleftrightarrow>
     events_ordered s \<and> m_timer s \<noteq> Some 0 \<and> m_timer_tc s \<noteq> Some 0"

section \<open>Verification\<close>

subsection \<open>Byte arithmetic of the count registers\<close>

lemma lo_mask: "(0xff :: 16 word) = mask 8"
  by (simp add: mask_eq_exp_minus_1)

lemma hi_mask: "(0xff00 :: 16 word) = NOT (mask 8)"
  by (simp add: mask_eq_exp_minus_1)

lemma set_low_byte:
  fixes x :: "16 word" and v :: "8 word"
  shows "((x AND 0xff00) OR ucast v) AND 0xff = ucast v"
    and "((x AND 0xff00) OR ucast v) AND 0xff00 = x AND 0xff00"
  unfolding lo_mask hi_mask
  by (rule bit_word_eqI; auto simp: bit_simps dest: bit_imp_le_length)+

lemma set_high_byte:
  fixes x :: "16 word" and v :: "8 word"
  shows "(push_bit 8 (ucast v) OR (x AND 0xff)) AND 0xff = x AND 0xff"
    and "drop_bit 8 (push_bit 8 (ucast v) OR (x AND 0xff)) = ucast v"
  unfolding lo_mask hi_mask
  by (rule bit_word_eqI; auto simp: bit_simps dest: bit_imp_le_length)+

lemma high_byte_back:
  fixes v :: "8 word"
  shows "drop_bit 8 (push_bit 8 (ucast v) :: 16 word) = ucast v"
  by (rule bit_word_eqI) (auto simp: bit_simps dest: bit_imp_le_length)

subsection \<open>Writes to the timer length registers\<close>

text \<open>Claim C10. A write to register index 4 (timer low) replaces only the low byte
  of the programmed count length by the written byte, and a write to register index 5
  (timer high) replaces only the high byte. No other part of the chip changes: the
  loaded count, both scheduled events, the timer output level, the status register, the
  ports and the RAM are as before, so a running timer does not see the new value before
  its next reload.\<close>

theorem timer_length_write_frame:
  fixes offset :: "32 word"
  shows "(offset AND 0x07 = 4 \<longrightarrow>
           register_w offset v s = s\<lparr>m_count_length := m_count_length (register_w offset v s)\<rparr>
           \<and> m_count_length (register_w offset v s) AND 0xff = ucast v
           \<and> m_count_length (register_w offset v s) AND 0xff00 = m_count_length s AND 0xff00)
       \<and> (offset AND 0x07 = 5 \<longrightarrow>
           register_w offset v s = s\<lparr>m_count_length := m_count_length (register_w offset v s)\<rparr>
           \<and> drop_bit 8 (m_count_length (register_w offset v s)) = ucast v
           \<and> m_count_length (register_w offset v s) AND 0xff = m_count_length s AND 0xff)"
  by (simp add: register_w_def set_low_byte set_high_byte high_byte_back)

theorem timer_length_write_frame_witness:
  "(12 :: 32 word) AND 0x07 = 4 \<and> (13 :: 32 word) AND 0x07 = 5
   \<and> m_count_length (register_w 12 0x64 (device_start 0 0)) = 0x64
   \<and> m_count_length (register_w 13 0x40 (register_w 12 0x64 (device_start 0 0))) = 0x4064
   \<and> m_count_loaded (register_w 13 0x40 (register_w 12 0x64 (device_start 0 0))) = 0
   \<and> m_timer (register_w 13 0x40 (register_w 12 0x64 (device_start 0 0))) = None"
  using timer_length_write_frame [of 12 "0x64" "device_start 0 0"]
    timer_length_write_frame [of 13 "0x40" "register_w 12 0x64 (device_start 0 0)"]
  by (simp add: register_w_def device_start_def)

subsection \<open>Register indices 6 and 7\<close>

lemma latched_index:
  fixes a :: "8 word"
  shows "(ucast a :: 32 word) AND 0x07 = ucast (a AND 0x07)"
  by (rule bit_word_eqI) (auto simp: bit_simps dest: bit_imp_le_length)

lemma widen_back:
  fixes x :: "8 word"
  shows "(ucast (ucast x :: 32 word) :: 8 word) = x"
  by (rule bit_word_eqI) (auto simp: bit_simps)

lemma widen_eq_6:
  fixes x :: "8 word"
  shows "((ucast x :: 32 word) = 6) = (x = 6)"
proof
  assume "(ucast x :: 32 word) = 6"
  then have "(ucast (ucast x :: 32 word) :: 8 word) = ucast (6 :: 32 word)" by simp
  then show "x = 6" by (simp add: widen_back)
qed simp

lemma widen_eq_7:
  fixes x :: "8 word"
  shows "((ucast x :: 32 word) = 7) = (x = 7)"
proof
  assume "(ucast x :: 32 word) = 7"
  then have "(ucast (ucast x :: 32 word) :: 8 word) = ucast (7 :: 32 word)" by simp
  then show "x = 7" by (simp add: widen_back)
qed simp

lemma register_w_undefined:
  fixes offset :: "32 word"
  shows "offset AND 0x07 = 6 \<or> offset AND 0x07 = 7 \<Longrightarrow> register_w offset data s = s"
  by (auto simp: register_w_def)

lemma io_r_undefined:
  fixes offset :: "32 word"
  shows "offset AND 0x07 = 6 \<or> offset AND 0x07 = 7 \<Longrightarrow> io_r sed h offset s = (0, s)"
  by (auto simp: io_r_def)

text \<open>Claim C9. The register decoder defines indices 0 to 5 only. At an I/O address
  whose low three bits are 6 or 7, a read returns 0 and leaves the chip as it was, and a
  write leaves the whole chip state unchanged (RAM, command, status, latches, count
  registers, scheduled events, output level) and invokes no callback. This holds for
  the register accessors and for a data transfer at such a latched I/O address.\<close>

theorem undefined_register_access:
  fixes offset :: "32 word"
  shows "(offset AND 0x07 = 6 \<or> offset AND 0x07 = 7 \<longrightarrow>
            io_r sed h offset s = (0, s) \<and> io_w offset data s = s)
         \<and> (m_io_m s = IO \<and> (m_ad s AND 0x07 = 6 \<or> m_ad s AND 0x07 = 7) \<longrightarrow>
            data_r sed h s = (0, s) \<and> data_w data s = s)"
proof (intro conjI impI)
  assume "offset AND 0x07 = 6 \<or> offset AND 0x07 = 7"
  then show "io_r sed h offset s = (0, s)" and "io_w offset data s = s"
    by (simp_all add: io_r_undefined register_w_undefined io_w_def)
next
  assume "m_io_m s = IO \<and> (m_ad s AND 0x07 = 6 \<or> m_ad s AND 0x07 = 7)"
  then have io: "m_io_m s = IO"
    and ix: "(ucast (m_ad s) :: 32 word) AND 0x07 = 6 \<or> (ucast (m_ad s) :: 32 word) AND 0x07 = 7"
    by (simp_all add: latched_index widen_eq_6 widen_eq_7)
  from io show "data_r sed h s = (0, s)"
    by (simp add: data_r_def IO_def MEMORY_def io_r_undefined [OF ix])
  from io show "data_w data s = s"
    by (simp add: data_w_def IO_def MEMORY_def io_w_def register_w_undefined [OF ix])
qed

theorem undefined_register_access_witness:
  "((0x0e :: 32 word) AND 0x07 = 6 \<or> (0x0e :: 32 word) AND 0x07 = 7)
   \<and> io_r False \<lparr>m_in_pa_cb = 1, m_in_pb_cb = 2, m_in_pc_cb = 3\<rparr> 0x0e (device_start 0 0)
       = (0, device_start 0 0)
   \<and> io_w 0x0e 0xff (device_start 0 0) = device_start 0 0
   \<and> m_io_m (ale_w 1 0x07 (device_start 0 0)) = IO
   \<and> m_ad (ale_w 1 0x07 (device_start 0 0)) AND 0x07 = 7
   \<and> data_w 0xff (ale_w 1 0x07 (device_start 0 0)) = ale_w 1 0x07 (device_start 0 0)"
  using undefined_register_access [of "0x0e" False "\<lparr>m_in_pa_cb = 1, m_in_pb_cb = 2, m_in_pc_cb = 3\<rparr>"
      "device_start 0 0" "0xff"]
    undefined_register_access [of 0 False "\<lparr>m_in_pa_cb = 1, m_in_pb_cb = 2, m_in_pc_cb = 3\<rparr>"
      "ale_w 1 0x07 (device_start 0 0)" "0xff"]
  by (simp add: ale_w_def IO_def)

subsection \<open>Status read\<close>

text \<open>Claim C6. When status bit 6 (the terminal-count flag) is set, a normal read of
  register index 0 returns the status byte, flag included, and clears the flag while
  keeping every other status bit; a read with side effects disabled returns the same
  byte and changes nothing.\<close>

theorem status_read_clears_flag:
  fixes offset :: "32 word"
  assumes "offset AND 0x07 = 0" and "m_status s AND STATUS_TIMER \<noteq> 0"
  shows "fst (io_r False h offset s) = m_status s
         \<and> fst (io_r False h offset s) AND STATUS_TIMER \<noteq> 0
         \<and> snd (io_r False h offset s) = s\<lparr>m_status := m_status s AND NOT STATUS_TIMER\<rparr>
         \<and> m_status (snd (io_r False h offset s)) AND STATUS_TIMER = 0
         \<and> m_status (snd (io_r False h offset s)) AND NOT STATUS_TIMER
             = m_status s AND NOT STATUS_TIMER
         \<and> io_r True h offset s = (m_status s, s)"
  using assms by (simp add: io_r_def word_bw_assocs)

theorem status_read_clears_flag_witness:
  "(8 :: 32 word) AND 0x07 = 0
   \<and> m_status (timer_tc (device_start 0 0)) AND STATUS_TIMER \<noteq> 0
   \<and> fst (io_r False \<lparr>m_in_pa_cb = 0, m_in_pb_cb = 0, m_in_pc_cb = 0\<rparr> 8
            (timer_tc (device_start 0 0))) = 0x40
   \<and> m_status (snd (io_r False \<lparr>m_in_pa_cb = 0, m_in_pb_cb = 0, m_in_pc_cb = 0\<rparr> 8
            (timer_tc (device_start 0 0)))) = 0
   \<and> io_r True \<lparr>m_in_pa_cb = 0, m_in_pb_cb = 0, m_in_pc_cb = 0\<rparr> 8
            (timer_tc (device_start 0 0)) = (0x40, timer_tc (device_start 0 0))"
proof -
  have st: "m_status (timer_tc (device_start 0 0)) = 0x40"
    by (simp add: timer_tc_def device_start_def get_timer_mode_def i8155_consts)
  have a: "(8 :: 32 word) AND 0x07 = 0" by simp
  have b: "m_status (timer_tc (device_start 0 0)) AND STATUS_TIMER \<noteq> 0"
    by (simp add: st STATUS_TIMER_def)
  show ?thesis
    using status_read_clears_flag [OF a b, of "\<lparr>m_in_pa_cb = 0, m_in_pb_cb = 0, m_in_pc_cb = 0\<rparr>"] a b
    by (simp add: st STATUS_TIMER_def)
qed

subsection \<open>Command writes and the timer\<close>

lemma timer_output_eq:
  "timer_output v s =
     s\<lparr>m_to := v, cb_log := cb_log s @ (if v = m_to s then [] else [OUT_TO v])\<rparr>"
  by (simp add: timer_output_def call_def)

lemma flush_if:
  "(if c then call x s else s) = s\<lparr>cb_log := cb_log s @ (if c then [x] else [])\<rparr>"
  by (simp add: call_def)

lemma timer_switch:
  assumes "m_timer s3 = m_timer s"
  shows "(if tm = COMMAND_TM_NOP then s3
          else if tm = COMMAND_TM_STOP then timer_stop_count s3
          else if tm = COMMAND_TM_STOP_AFTER_TC then s3
          else if tm = COMMAND_TM_START then
            (if m_timer s3 \<noteq> None then s3 else timer_reload_count s3)
          else s3)
       = (if tm = COMMAND_TM_STOP then timer_stop_count s3
          else if tm = COMMAND_TM_START \<and> m_timer s = None then timer_reload_count s3
          else s3)"
  using assms by (auto simp: i8155_consts)

lemma write_command_unfold:
  "write_command data s =
     (if data AND COMMAND_TM_MASK = COMMAND_TM_STOP
      then timer_stop_count
             (s\<lparr>m_command := data,
                cb_log := cb_log s @ port_flushes data (m_command s) (m_output s)\<rparr>)
      else if data AND COMMAND_TM_MASK = COMMAND_TM_START \<and> m_timer s = None
      then timer_reload_count
             (s\<lparr>m_command := data,
                cb_log := cb_log s @ port_flushes data (m_command s) (m_output s)\<rparr>)
      else s\<lparr>m_command := data,
              cb_log := cb_log s @ port_flushes data (m_command s) (m_output s)\<rparr>)"
  unfolding write_command_def Let_def flush_if
  by (subst timer_switch [where s = s]) (simp_all add: port_flushes_def split del: if_split cong: if_cong)


lemma to_levels_append: "to_levels (xs @ ys) = to_levels xs @ to_levels ys"
  by (induction xs rule: to_levels.induct) simp_all

lemma to_levels_port_flushes: "to_levels (port_flushes data old out) = []"
  by (simp add: port_flushes_def)

lemma timer_stop_count_stopped:
  "m_timer (timer_stop_count s) = None"
  "m_timer_tc (timer_stop_count s) = None"
  "m_to (timer_stop_count s) = 1"
  by (simp_all add: timer_stop_count_def timer_output_eq Let_def)

lemma timer_reload_count_degenerate:
  "m_count_length s AND 0x3fff < 2 \<Longrightarrow>
     timer_reload_count s = timer_stop_count (s\<lparr>m_count_loaded := m_count_length s\<rparr>)"
  by (simp add: timer_reload_count_def)

lemma timer_reload_count_loaded:
  "m_timer s = None \<Longrightarrow> m_count_loaded (timer_reload_count s) = m_count_length s"
  by (simp add: timer_reload_count_def timer_stop_count_def timer_output_eq Let_def)

text \<open>Claim C5. When the 14-bit count field of the programmed length is 0 or 1, whatever
  the mode bits, a reload does not count: it leaves the timer stopped, with neither the
  half-period nor the terminal-count event scheduled and the timer output high. This
  holds for the reload itself, for a Start command written while the timer is not
  running, and for the automatic reload at the end of the even half.\<close>

theorem degenerate_length_stops:
  assumes "m_count_length s AND 0x3fff < 2"
  shows "m_timer (timer_reload_count s) = None
         \<and> m_timer_tc (timer_reload_count s) = None
         \<and> m_to (timer_reload_count s) = 1
         \<and> (m_timer s = None \<and> data AND COMMAND_TM_MASK = COMMAND_TM_START \<longrightarrow>
              m_timer (write_command data s) = None
              \<and> m_timer_tc (write_command data s) = None
              \<and> m_to (write_command data s) = 1)
         \<and> (m_count_even_phase s
              \<and> get_timer_mode s AND TIMER_MODE_AUTO_RELOAD \<noteq> 0
              \<and> m_command s AND COMMAND_TM_MASK \<noteq> COMMAND_TM_STOP_AFTER_TC \<longrightarrow>
              m_timer (timer_half_counted s) = None
              \<and> m_timer_tc (timer_half_counted s) = None
              \<and> m_to (timer_half_counted s) = 1)"
proof -
  have stop: "m_timer (timer_reload_count s') = None \<and> m_timer_tc (timer_reload_count s') = None
              \<and> m_to (timer_reload_count s') = 1"
    if "m_count_length s' = m_count_length s" for s'
    using that assms by (simp add: timer_reload_count_degenerate timer_stop_count_stopped)
  have "write_command data s =
          timer_reload_count
            (s\<lparr>m_command := data,
               cb_log := cb_log s @ port_flushes data (m_command s) (m_output s)\<rparr>)"
    if "m_timer s = None \<and> data AND COMMAND_TM_MASK = COMMAND_TM_START"
    using that by (simp add: write_command_unfold i8155_consts)
  moreover have "timer_half_counted s
      = timer_reload_count ((timer_output 1 s)\<lparr>m_count_even_phase := False\<rparr>)"
    if "m_count_even_phase s \<and> get_timer_mode s AND TIMER_MODE_AUTO_RELOAD \<noteq> 0
        \<and> m_command s AND COMMAND_TM_MASK \<noteq> COMMAND_TM_STOP_AFTER_TC"
    using that by (simp add: timer_half_counted_def Let_def timer_output_eq get_timer_mode_def)
  ultimately show ?thesis
    using stop [of s]
      stop [of "s\<lparr>m_command := data,
               cb_log := cb_log s @ port_flushes data (m_command s) (m_output s)\<rparr>"]
      stop [of "(timer_output 1 s)\<lparr>m_count_even_phase := False\<rparr>"]
    by (simp add: timer_output_eq)
qed

theorem degenerate_length_stops_witness:
  "m_count_length (register_w 4 1 (device_start 0 0)) AND 0x3fff < 2
   \<and> m_timer (register_w 4 1 (device_start 0 0)) = None
   \<and> 0xc0 AND COMMAND_TM_MASK = COMMAND_TM_START
   \<and> m_timer (write_command 0xc0 (register_w 4 1 (device_start 0 0))) = None
   \<and> m_timer_tc (write_command 0xc0 (register_w 4 1 (device_start 0 0))) = None
   \<and> m_to (write_command 0xc0 (register_w 4 1 (device_start 0 0))) = 1
   \<and> m_count_even_phase
        ((register_w 4 1 (device_start 0 0))\<lparr>m_count_loaded := 0x4002, m_count_even_phase := True\<rparr>)
   \<and> get_timer_mode
        ((register_w 4 1 (device_start 0 0))\<lparr>m_count_loaded := 0x4002, m_count_even_phase := True\<rparr>)
        AND TIMER_MODE_AUTO_RELOAD \<noteq> 0
   \<and> m_timer (timer_half_counted
        ((register_w 4 1 (device_start 0 0))\<lparr>m_count_loaded := 0x4002, m_count_even_phase := True\<rparr>))
       = None"
  using degenerate_length_stops [of "register_w 4 1 (device_start 0 0)" "0xc0"]
    degenerate_length_stops
      [of "(register_w 4 1 (device_start 0 0))\<lparr>m_count_loaded := 0x4002, m_count_even_phase := True\<rparr>" 0]
  by (simp add: register_w_def device_start_def get_timer_mode_def i8155_consts)


text \<open>Claim C4. A command write whose timer field is Start (11), made while the
  half-period event is scheduled, changes neither the loaded count nor either event's
  deadline nor the output level (nor the phase or the programmed length), and invokes
  no timer-output callback. The programmed length and mode are taken up at the next
  natural reload boundary, where the loaded count becomes the programmed one. When the
  timer is not running, the same command is a full reload, made at once.\<close>

theorem start_while_running_deferred:
  assumes "data AND COMMAND_TM_MASK = COMMAND_TM_START"
  shows "(m_timer s \<noteq> None \<longrightarrow>
            m_count_loaded (write_command data s) = m_count_loaded s
            \<and> m_timer (write_command data s) = m_timer s
            \<and> m_timer_tc (write_command data s) = m_timer_tc s
            \<and> m_to (write_command data s) = m_to s
            \<and> m_count_even_phase (write_command data s) = m_count_even_phase s
            \<and> m_count_length (write_command data s) = m_count_length s
            \<and> to_levels (cb_log (write_command data s)) = to_levels (cb_log s))
         \<and> (m_timer s = None \<longrightarrow>
            write_command data s
              = timer_reload_count ((write_command (data AND 0x3f) s)\<lparr>m_command := data\<rparr>)
            \<and> m_count_loaded (write_command data s) = m_count_length s)
         \<and> (m_count_even_phase b
              \<and> get_timer_mode b AND TIMER_MODE_AUTO_RELOAD \<noteq> 0
              \<and> m_command b AND COMMAND_TM_MASK \<noteq> COMMAND_TM_STOP_AFTER_TC \<longrightarrow>
            m_count_loaded (timer_half_counted (b\<lparr>m_timer := None\<rparr>)) = m_count_length b)"
proof (intro conjI impI)
  assume run: "m_timer s \<noteq> None"
  with assms have eq: "write_command data s =
      s\<lparr>m_command := data, cb_log := cb_log s @ port_flushes data (m_command s) (m_output s)\<rparr>"
    by (auto simp add: write_command_unfold i8155_consts)
  show "m_count_loaded (write_command data s) = m_count_loaded s"
    "m_timer (write_command data s) = m_timer s"
    "m_timer_tc (write_command data s) = m_timer_tc s"
    "m_to (write_command data s) = m_to s"
    "m_count_even_phase (write_command data s) = m_count_even_phase s"
    "m_count_length (write_command data s) = m_count_length s"
    "to_levels (cb_log (write_command data s)) = to_levels (cb_log s)"
    by (simp_all add: eq to_levels_append to_levels_port_flushes)
next
  assume idle: "m_timer s = None"
  have low: "(data AND 0x3f) AND COMMAND_TM_MASK = COMMAND_TM_NOP"
    "port_flushes (data AND 0x3f) (m_command s) (m_output s)
       = port_flushes data (m_command s) (m_output s)"
    by (simp_all add: port_flushes_def i8155_consts word_bw_assocs)
  have ports: "(write_command (data AND 0x3f) s)\<lparr>m_command := data\<rparr> =
      s\<lparr>m_command := data, cb_log := cb_log s @ port_flushes data (m_command s) (m_output s)\<rparr>"
    by (simp add: write_command_unfold low) (simp add: i8155_consts)
  from idle assms show eq: "write_command data s
      = timer_reload_count ((write_command (data AND 0x3f) s)\<lparr>m_command := data\<rparr>)"
    unfolding ports by (simp add: write_command_unfold i8155_consts)
  show "m_count_loaded (write_command data s) = m_count_length s"
    unfolding eq ports using idle by (simp add: timer_reload_count_loaded)
next
  assume "m_count_even_phase b \<and> get_timer_mode b AND TIMER_MODE_AUTO_RELOAD \<noteq> 0
          \<and> m_command b AND COMMAND_TM_MASK \<noteq> COMMAND_TM_STOP_AFTER_TC"
  then have "timer_half_counted (b\<lparr>m_timer := None\<rparr>)
      = timer_reload_count ((timer_output 1 (b\<lparr>m_timer := None\<rparr>))\<lparr>m_count_even_phase := False\<rparr>)"
    by (simp add: timer_half_counted_def Let_def timer_output_eq get_timer_mode_def)
  then show "m_count_loaded (timer_half_counted (b\<lparr>m_timer := None\<rparr>)) = m_count_length b"
    by (simp add: timer_reload_count_loaded timer_output_eq)
qed


theorem start_while_running_deferred_witness:
  "0xc0 AND COMMAND_TM_MASK = COMMAND_TM_START
   \<and> m_timer (register_w 5 0x40 (register_w 4 100 (device_start 0 0))) = None
   \<and> m_timer (write_command 0xc0 (register_w 5 0x40 (register_w 4 100 (device_start 0 0))))
       = Some 50
   \<and> m_count_loaded (write_command 0xc0 (register_w 5 0x40 (register_w 4 100 (device_start 0 0))))
       = 0x4064
   \<and> m_count_length (write_command 0xc0 (register_w 4 10
         (write_command 0xc0 (register_w 5 0x40 (register_w 4 100 (device_start 0 0))))))
       = 0x400a
   \<and> m_count_loaded (write_command 0xc0 (register_w 4 10
         (write_command 0xc0 (register_w 5 0x40 (register_w 4 100 (device_start 0 0))))))
       = 0x4064
   \<and> m_timer (write_command 0xc0 (register_w 4 10
         (write_command 0xc0 (register_w 5 0x40 (register_w 4 100 (device_start 0 0))))))
       = Some 50
   \<and> m_count_loaded (timer_half_counted
         ((register_w 4 10
            (write_command 0xc0 (register_w 5 0x40 (register_w 4 100 (device_start 0 0)))))
          \<lparr>m_count_even_phase := True, m_timer := None\<rparr>))
       = 0x400a"
proof -
  let ?I = "register_w 5 0x40 (register_w 4 100 (device_start 0 0))"
  let ?R = "write_command 0xc0 ?I"
  let ?P = "register_w 4 10 ?R"
  have start: "0xc0 AND COMMAND_TM_MASK = COMMAND_TM_START"
    by (simp add: i8155_consts)
  have I: "?I = (device_start 0 0)\<lparr>m_count_length := 0x4064\<rparr>"
    by (simp add: register_w_def device_start_def)
  have R: "?R = (device_start 0 0)\<lparr>m_command := 0xc0, m_count_length := 0x4064,
      m_count_loaded := 0x4064, m_timer := Some 50, m_to := 1, cb_log := [OUT_TO 1]\<rparr>"
    unfolding I
    by (simp add: write_command_unfold device_start_def timer_reload_count_def
        timer_output_eq port_flushes_def i8155_consts)
  have P: "?P = (device_start 0 0)\<lparr>m_command := 0xc0, m_count_length := 0x400a,
      m_count_loaded := 0x4064, m_timer := Some 50, m_to := 1, cb_log := [OUT_TO 1]\<rparr>"
    unfolding R by (simp add: register_w_def device_start_def)
  have idle: "m_timer ?I = None" unfolding I by (simp add: device_start_def)
  have running: "m_timer ?P = Some 50" "m_count_loaded ?P = 0x4064" "m_count_length ?P = 0x400a"
    unfolding P by simp_all
  have boundary: "m_count_even_phase (?P\<lparr>m_count_even_phase := True\<rparr>)"
    "get_timer_mode (?P\<lparr>m_count_even_phase := True\<rparr>) AND TIMER_MODE_AUTO_RELOAD \<noteq> 0"
    "m_command (?P\<lparr>m_count_even_phase := True\<rparr>) AND COMMAND_TM_MASK \<noteq> COMMAND_TM_STOP_AFTER_TC"
    "m_count_length (?P\<lparr>m_count_even_phase := True\<rparr>) = 0x400a"
    unfolding P by (simp_all add: get_timer_mode_def i8155_consts)
  have R_fields: "m_timer ?R = Some 50" "m_count_loaded ?R = 0x4064"
    unfolding R by simp_all
  note running_case = start_while_running_deferred [OF start, of ?P "?P\<lparr>m_count_even_phase := True\<rparr>"]
  note idle_case = start_while_running_deferred [OF start, of ?I "?P\<lparr>m_count_even_phase := True\<rparr>"]
  have a: "m_count_length (write_command 0xc0 ?P) = 0x400a"
    "m_count_loaded (write_command 0xc0 ?P) = 0x4064"
    "m_timer (write_command 0xc0 ?P) = Some 50"
    using running_case running by simp_all
  have b: "m_count_loaded (timer_half_counted (?P\<lparr>m_count_even_phase := True, m_timer := None\<rparr>))
      = 0x400a"
    using running_case boundary by simp
  have "m_count_loaded ?R = m_count_length ?I"
    by (rule idle_case [THEN conjunct2, THEN conjunct1, THEN mp, OF idle, THEN conjunct2])
  also have "m_count_length ?I = 0x4064"
    unfolding I by simp
  finally have c: "m_count_loaded ?R = 0x4064" .
  show ?thesis
    using a b c by (simp add: start idle R_fields)
qed

subsection \<open>The Stop command\<close>

lemma mode_mask16: "(push_bit 8 (ucast TIMER_MODE_MASK) :: 16 word) = 0xc000"
  by (simp add: TIMER_MODE_MASK_def)

lemma count_field_bound:
  fixes w :: "16 word"
  shows "unat (w AND 0x3ffe) < 2 ^ 14"
proof -
  have "w AND 0x3ffe \<le> 0x3ffe" by (rule word_and_le1)
  then have "unat (w AND 0x3ffe) \<le> unat (0x3ffe :: 16 word)" by (simp add: word_le_nat_alt)
  then show ?thesis by simp
qed

lemma small_word_no_mode_bits:
  assumes "n < 2 ^ 14"
  shows "((word_of_nat n :: 16 word) OR (if e then 0 else 1)) AND 0xc000 = 0"
proof -
  have hi: "(0xc000 :: 16 word) = NOT (mask 14)" by (simp add: mask_eq_exp_minus_1)
  from assms have "(word_of_nat n :: 16 word) = take_bit 14 (word_of_nat n)"
    by (simp add: take_bit_of_nat take_bit_nat_eq_self)
  then obtain w :: "16 word" where w: "word_of_nat n = take_bit 14 w" by blast
  show ?thesis unfolding w hi
    by (rule bit_word_eqI) (auto simp: bit_simps)
qed

lemma get_timer_count_running_bits:
  assumes "m_timer s \<noteq> None"
  shows "get_timer_count s AND 0xc000 = 0"
proof -
  from assms obtain r where r: "m_timer s = Some r" by blast
  have "min ((r mod 65536 + 1) * 2) (unat (m_count_loaded s AND 0x3ffe)) < 2 ^ 14"
    using count_field_bound [of "m_count_loaded s"] by simp
  then show ?thesis
    unfolding get_timer_count_def r by (simp only: option.case small_word_no_mode_bits)
qed

lemma keep_mode_bits:
  fixes x c :: "16 word"
  assumes "c AND 0xc000 = 0"
  shows "((x AND 0xc000) OR c) AND 0xc000 = x AND 0xc000"
  by (simp add: bit.conj_disj_distrib2 assms word_bw_assocs)

lemma timer_stop_count_loaded:
  "m_count_loaded (timer_stop_count s) =
     (if m_timer s \<noteq> None then (m_count_loaded s AND 0xc000) OR get_timer_count s
      else m_count_loaded s)"
  by (simp add: timer_stop_count_def timer_output_eq Let_def mode_mask16)

text \<open>Claim C3, as amended. A command write whose timer field is Stop (01) halts
  counting at once in every chip state: the timer output is high afterwards and both
  events are disabled. When the half-period event was scheduled, the live count is
  stored in the loaded count, whose two mode bits are kept; when it was not scheduled,
  the loaded count is left as it was.\<close>

theorem stop_command_halts:
  assumes "data AND COMMAND_TM_MASK = COMMAND_TM_STOP"
  shows "m_to (write_command data s) = 1
         \<and> m_timer (write_command data s) = None
         \<and> m_timer_tc (write_command data s) = None
         \<and> m_count_loaded (write_command data s) =
             (if m_timer s \<noteq> None then (m_count_loaded s AND 0xc000) OR get_timer_count s
              else m_count_loaded s)
         \<and> m_count_loaded (write_command data s) AND 0xc000 = m_count_loaded s AND 0xc000"
proof -
  let ?s3 = "s\<lparr>m_command := data,
               cb_log := cb_log s @ port_flushes data (m_command s) (m_output s)\<rparr>"
  have eq: "write_command data s = timer_stop_count ?s3"
    using assms by (simp add: write_command_unfold)
  have cnt: "get_timer_count ?s3 = get_timer_count s"
    by (simp add: get_timer_count_def cong: option.case_cong)
  have loaded: "m_count_loaded (write_command data s) =
             (if m_timer s \<noteq> None then (m_count_loaded s AND 0xc000) OR get_timer_count s
              else m_count_loaded s)"
    unfolding eq timer_stop_count_loaded cnt by simp
  have "m_count_loaded (write_command data s) AND 0xc000 = m_count_loaded s AND 0xc000"
    unfolding loaded
    using get_timer_count_running_bits [of s] by (simp add: keep_mode_bits)
  with loaded show ?thesis
    unfolding eq by (simp add: timer_stop_count_stopped)
qed


theorem stop_command_halts_witness:
  "0x40 AND COMMAND_TM_MASK = COMMAND_TM_STOP
   \<and> m_timer (write_command 0xc0 (register_w 4 100 (device_start 0 0))) = Some 50
   \<and> get_timer_count (write_command 0xc0 (register_w 4 100 (device_start 0 0))) = 0x65
   \<and> m_timer (write_command 0x40 (write_command 0xc0 (register_w 4 100 (device_start 0 0)))) = None
   \<and> m_to (write_command 0x40 (write_command 0xc0 (register_w 4 100 (device_start 0 0)))) = 1
   \<and> m_count_loaded (write_command 0x40 (write_command 0xc0 (register_w 4 100 (device_start 0 0))))
       = 0x65"
proof -
  have run: "write_command 0xc0 (register_w 4 100 (device_start 0 0)) =
      (device_start 0 0)\<lparr>m_command := 0xc0, m_count_length := 100, m_count_loaded := 100,
         m_timer := Some 50, m_to := 1, cb_log := [OUT_TO 1]\<rparr>"
    by (simp add: write_command_unfold register_w_def device_start_def timer_reload_count_def
        timer_output_eq port_flushes_def i8155_consts)
  have stop: "0x40 AND COMMAND_TM_MASK = COMMAND_TM_STOP"
    by (simp add: i8155_consts)
  have cnt: "get_timer_count (write_command 0xc0 (register_w 4 100 (device_start 0 0))) = 0x65"
    unfolding run by (simp add: get_timer_count_def device_start_def)
  have tm: "m_timer (write_command 0xc0 (register_w 4 100 (device_start 0 0))) = Some 50"
    and ld: "m_count_loaded (write_command 0xc0 (register_w 4 100 (device_start 0 0))) = 100"
    by (simp_all add: run)
  show ?thesis
    using stop_command_halts [OF stop, of "write_command 0xc0 (register_w 4 100 (device_start 0 0))"]
    by (simp add: stop cnt tm ld)
qed

text \<open>Claim C3 as stated fails for a timer that is not running: after power-on and a
  write of 5 to the timer low register, the live count reads 5, and a Stop command
  leaves the loaded count at 0 instead of storing the live count.\<close>

theorem stop_snapshot_counterexample:
  "0x40 AND COMMAND_TM_MASK = COMMAND_TM_STOP
   \<and> get_timer_count (register_w 4 5 (device_start 0 0)) = 5
   \<and> m_count_loaded (write_command 0x40 (register_w 4 5 (device_start 0 0))) = 0
   \<and> m_count_loaded (write_command 0x40 (register_w 4 5 (device_start 0 0)))
       \<noteq> (m_count_loaded (register_w 4 5 (device_start 0 0)) AND 0xc000)
            OR get_timer_count (register_w 4 5 (device_start 0 0))"
  by (simp add: write_command_unfold register_w_def device_start_def timer_stop_count_def
      timer_output_eq get_timer_count_def i8155_consts)

subsection \<open>Port writes and direction changes\<close>

lemma port_calls_simps:
  "port_calls p [] = []"
  "port_calls p (xs @ ys) = port_calls p xs @ port_calls p ys"
  "port_calls p [OUT_TO v] = []"
  by (simp_all add: port_calls_def map_filter_simps List.map_filter_def)

lemma not_bit0:
  fixes x :: "8 word"
  shows "(NOT x AND 1 \<noteq> 0) = (x AND 1 = 0)"
  using and_exp_eq_0_iff_not_bit [of x 0] and_exp_eq_0_iff_not_bit [of "NOT x" 0]
  by (simp add: bit_simps)

lemma not_bit1:
  fixes x :: "8 word"
  shows "(NOT x AND 2 \<noteq> 0) = (x AND 2 = 0)"
  using and_exp_eq_0_iff_not_bit [of x 1] and_exp_eq_0_iff_not_bit [of "NOT x" 1]
  by (simp add: bit_simps)

lemma port_calls_flushes:
  "port_calls PORT_A (port_flushes data old out)
     = (if data AND COMMAND_PA \<noteq> 0 \<and> old AND COMMAND_PA = 0 then [out PORT_A] else [])"
  "port_calls PORT_B (port_flushes data old out)
     = (if data AND COMMAND_PB \<noteq> 0 \<and> old AND COMMAND_PB = 0 then [out PORT_B] else [])"
  by (simp_all add: port_flushes_def port_calls_def List.map_filter_def i8155_consts
      not_bit0 not_bit1)

lemma port_calls_timer_stop_count:
  "port_calls p (cb_log (timer_stop_count s)) = port_calls p (cb_log s)"
  by (simp add: timer_stop_count_def timer_output_eq Let_def port_calls_simps)

lemma port_calls_timer_reload_count:
  "port_calls p (cb_log (timer_reload_count s)) = port_calls p (cb_log s)"
  by (simp add: timer_reload_count_def timer_stop_count_def timer_output_eq Let_def
      port_calls_simps)

lemma port_calls_write_command:
  "port_calls p (cb_log (write_command data s))
     = port_calls p (cb_log s) @ port_calls p (port_flushes data (m_command s) (m_output s))"
  by (simp add: write_command_unfold port_calls_timer_stop_count
      port_calls_timer_reload_count port_calls_simps)

text \<open>Claim C7. A port write stores the written byte in that port's output latch,
  whatever the port's mode, and changes no other latch; it invokes the port's output
  callback with that byte exactly when the port is in output mode, and no callback
  otherwise. A command write invokes the output callback of port A (of port B) exactly
  once, with the latched value, when it changes that port's direction bit from 0 to 1,
  and not at all otherwise. The register decoder passes the written byte to the port
  write as it is for ports A and B, and masked to six bits for port C.\<close>

theorem port_write_and_direction_flush:
  "m_output (write_port p data s) = (m_output s)(p := data)
   \<and> cb_log (write_port p data s) =
       cb_log s @ (if get_port_mode p s = PORT_MODE_OUTPUT
                   then [case p of PORT_A \<Rightarrow> OUT_PA data | PORT_B \<Rightarrow> OUT_PB data
                         | PORT_C \<Rightarrow> OUT_PC data]
                   else [])
   \<and> port_calls PORT_A (cb_log (write_command cmd s)) =
       port_calls PORT_A (cb_log s)
         @ (if cmd AND COMMAND_PA \<noteq> 0 \<and> m_command s AND COMMAND_PA = 0
            then [m_output s PORT_A] else [])
   \<and> port_calls PORT_B (cb_log (write_command cmd s)) =
       port_calls PORT_B (cb_log s)
         @ (if cmd AND COMMAND_PB \<noteq> 0 \<and> m_command s AND COMMAND_PB = 0
            then [m_output s PORT_B] else [])
   \<and> ((offset :: 32 word) AND 0x07 = 1 \<longrightarrow>
         register_w offset data s = write_port PORT_A data s)
   \<and> (offset AND 0x07 = 2 \<longrightarrow> register_w offset data s = write_port PORT_B data s)
   \<and> (offset AND 0x07 = 3 \<longrightarrow>
         register_w offset data s = write_port PORT_C (data AND 0x3f) s)"
proof (intro conjI)
  show "offset AND 0x07 = 1 \<longrightarrow> register_w offset data s = write_port PORT_A data s"
    "offset AND 0x07 = 2 \<longrightarrow> register_w offset data s = write_port PORT_B data s"
    "offset AND 0x07 = 3 \<longrightarrow> register_w offset data s = write_port PORT_C (data AND 0x3f) s"
    by (simp_all add: register_w_def)
  show "m_output (write_port p data s) = (m_output s)(p := data)"
    by (cases p) (simp_all add: write_port_def Let_def call_def)
  show "cb_log (write_port p data s) =
       cb_log s @ (if get_port_mode p s = PORT_MODE_OUTPUT
                   then [case p of PORT_A \<Rightarrow> OUT_PA data | PORT_B \<Rightarrow> OUT_PB data
                         | PORT_C \<Rightarrow> OUT_PC data]
                   else [])"
    by (cases p) (simp_all add: write_port_def Let_def call_def get_port_mode_def)
  show "port_calls PORT_A (cb_log (write_command cmd s)) =
       port_calls PORT_A (cb_log s)
         @ (if cmd AND COMMAND_PA \<noteq> 0 \<and> m_command s AND COMMAND_PA = 0
            then [m_output s PORT_A] else [])"
    by (simp only: port_calls_write_command port_calls_flushes)
  show "port_calls PORT_B (cb_log (write_command cmd s)) =
       port_calls PORT_B (cb_log s)
         @ (if cmd AND COMMAND_PB \<noteq> 0 \<and> m_command s AND COMMAND_PB = 0
            then [m_output s PORT_B] else [])"
    by (simp only: port_calls_write_command port_calls_flushes)
qed

theorem port_write_and_direction_flush_witness:
  "(9 :: 32 word) AND 0x07 = 1
   \<and> register_w 9 0x5a (device_start 0 0) = write_port PORT_A 0x5a (device_start 0 0)
   \<and> m_output (write_port PORT_A 0x5a (device_start 0 0)) PORT_A = 0x5a
   \<and> get_port_mode PORT_A (device_start 0 0) = PORT_MODE_INPUT
   \<and> cb_log (write_port PORT_A 0x5a (device_start 0 0)) = []
   \<and> port_calls PORT_A (cb_log (write_command 0x01 (write_port PORT_A 0x5a (device_start 0 0))))
       = [0x5a]
   \<and> get_port_mode PORT_A (write_command 0x01 (write_port PORT_A 0x5a (device_start 0 0)))
       = PORT_MODE_OUTPUT
   \<and> port_calls PORT_A (cb_log (write_port PORT_A 0x77
         (write_command 0x01 (write_port PORT_A 0x5a (device_start 0 0)))))
       = [0x5a, 0x77]"
proof -
  let ?s1 = "write_port PORT_A 0x5a (device_start 0 0)"
  let ?s2 = "write_command 0x01 ?s1"
  have in_mode: "get_port_mode PORT_A (device_start 0 0) = PORT_MODE_INPUT"
    by (simp add: get_port_mode_def device_start_def i8155_consts)
  have s1: "m_output ?s1 PORT_A = 0x5a" "cb_log ?s1 = []" "m_command ?s1 = 0"
    using port_write_and_direction_flush [of PORT_A "0x5a" "device_start 0 0" 0 0] in_mode
    by (simp_all add: write_port_def get_port_mode_def device_start_def i8155_consts)
  have reg: "(9 :: 32 word) AND 0x07 = 1"
    "register_w 9 0x5a (device_start 0 0) = write_port PORT_A 0x5a (device_start 0 0)"
    using port_write_and_direction_flush [of PORT_A "0x5a" "device_start 0 0" 0 9] by simp_all
  have s2: "port_calls PORT_A (cb_log ?s2) = [0x5a]"
    using port_write_and_direction_flush [of PORT_A 0 ?s1 "0x01" 0]
    by (simp add: s1 port_calls_simps COMMAND_PA_def)
  have out_mode: "get_port_mode PORT_A ?s2 = PORT_MODE_OUTPUT"
    by (simp add: get_port_mode_def write_command_unfold i8155_consts)
  have "port_calls PORT_A (cb_log (write_port PORT_A 0x77 ?s2)) = [0x5a, 0x77]"
    using port_write_and_direction_flush [of PORT_A "0x77" ?s2 0 0]
    by (simp add: out_mode s2 port_calls_simps) (simp add: port_calls_def List.map_filter_def)
  with in_mode s1 s2 out_mode reg show ?thesis by simp
qed

subsection \<open>Running the clock\<close>

lemma execute_timers_idle:
  "m_timer_tc s \<noteq> Some 0 \<Longrightarrow> m_timer s \<noteq> Some 0 \<Longrightarrow> execute_timers s = s"
  by (subst execute_timers.simps) simp

lemma execute_timers_tc:
  "m_timer_tc s = Some 0 \<Longrightarrow>
     execute_timers s = execute_timers (timer_tc (s\<lparr>m_timer_tc := None\<rparr>))"
  by (subst execute_timers.simps) simp

lemma execute_timers_half:
  "m_timer_tc s \<noteq> Some 0 \<Longrightarrow> m_timer s = Some 0 \<Longrightarrow>
     execute_timers s = execute_timers (timer_half_counted (s\<lparr>m_timer := None\<rparr>))"
  by (subst execute_timers.simps) simp

lemma run_clock_add: "run_clock (a + b) s = run_clock b (run_clock a s)"
  by (induction a arbitrary: s) simp_all

lemma run_clock_idle:
  assumes "\<And>n. m_timer s = Some n \<Longrightarrow> k < n" and "\<And>n. m_timer_tc s = Some n \<Longrightarrow> k < n"
  shows "run_clock k s =
           s\<lparr>m_timer := map_option (\<lambda>n. n - k) (m_timer s),
             m_timer_tc := map_option (\<lambda>n. n - k) (m_timer_tc s)\<rparr>"
  using assms
proof (induction k arbitrary: s)
  case 0
  show ?case by (simp add: option.map_ident)
next
  case (Suc k)
  have quiet: "m_timer_tc (elapse s) \<noteq> Some 0" "m_timer (elapse s) \<noteq> Some 0"
    using Suc.prems by (auto simp: elapse_def)
  have "run_clock (Suc k) s = run_clock k (elapse s)"
    by (simp add: tick_def execute_timers_idle [OF quiet])
  also have "\<dots> = (elapse s)\<lparr>m_timer := map_option (\<lambda>n. n - k) (m_timer (elapse s)),
             m_timer_tc := map_option (\<lambda>n. n - k) (m_timer_tc (elapse s))\<rparr>"
    using Suc.prems by (intro Suc.IH) (auto simp: elapse_def)
  also have "\<dots> = s\<lparr>m_timer := map_option (\<lambda>n. n - Suc k) (m_timer s),
             m_timer_tc := map_option (\<lambda>n. n - Suc k) (m_timer_tc s)\<rparr>"
    by (simp add: elapse_def option.map_comp comp_def)
  finally show ?case .
qed

lemma run_clock_stopped:
  "m_timer s = None \<Longrightarrow> m_timer_tc s = None \<Longrightarrow> run_clock k s = s"
  by (subst run_clock_idle) simp_all

lemma run_clock_fire_half:
  assumes "m_timer s = Some (Suc n)" and "m_timer_tc s = None"
  shows "run_clock (Suc n) s = execute_timers (timer_half_counted (s\<lparr>m_timer := None\<rparr>))"
proof -
  have "run_clock n s = s\<lparr>m_timer := Some 1\<rparr>"
    using assms by (subst run_clock_idle) simp_all
  then have "run_clock (Suc n) s = tick (s\<lparr>m_timer := Some 1\<rparr>)"
    using run_clock_add [of n 1 s] by simp
  also have "\<dots> = execute_timers (s\<lparr>m_timer := Some 0\<rparr>)"
    using assms by (cases s) (simp add: tick_def elapse_def)
  also have "\<dots> = execute_timers (timer_half_counted (s\<lparr>m_timer := None\<rparr>))"
    using assms by (subst execute_timers_half) simp_all
  finally show ?thesis .
qed

subsection \<open>The timer-output callback\<close>

lemma to_inv_frame [simp]:
  "to_inv (s\<lparr>m_io_m := a\<rparr>) = to_inv s"
  "to_inv (s\<lparr>m_ad := b\<rparr>) = to_inv s"
  "to_inv (s\<lparr>m_command := c\<rparr>) = to_inv s"
  "to_inv (s\<lparr>m_status := d\<rparr>) = to_inv s"
  "to_inv (s\<lparr>m_output := e\<rparr>) = to_inv s"
  "to_inv (s\<lparr>m_ram := f\<rparr>) = to_inv s"
  "to_inv (s\<lparr>m_count_length := g\<rparr>) = to_inv s"
  "to_inv (s\<lparr>m_count_loaded := h\<rparr>) = to_inv s"
  "to_inv (s\<lparr>m_count_even_phase := i\<rparr>) = to_inv s"
  "to_inv (s\<lparr>m_timer := j\<rparr>) = to_inv s"
  "to_inv (s\<lparr>m_timer_tc := k\<rparr>) = to_inv s"
  by (simp_all add: to_inv_def)

lemma to_inv_log:
  "to_levels cs = [] \<Longrightarrow> to_inv (s\<lparr>cb_log := cb_log s @ cs\<rparr>) = to_inv s"
  by (simp add: to_inv_def to_levels_append)

lemma to_inv_call [simp]:
  "to_inv (call IN_PA s) = to_inv s"
  "to_inv (call IN_PB s) = to_inv s"
  "to_inv (call IN_PC s) = to_inv s"
  "to_inv (call (OUT_PA v) s) = to_inv s"
  "to_inv (call (OUT_PB v) s) = to_inv s"
  "to_inv (call (OUT_PC v) s) = to_inv s"
  by (simp_all add: call_def to_inv_log)

lemma to_inv_timer_output:
  assumes "to_inv s" and "v = 0 \<or> v = 1"
  shows "to_inv (timer_output v s)"
proof (cases "v = m_to s")
  case True
  with assms show ?thesis by (simp add: timer_output_def)
next
  case False
  with assms show ?thesis
    by (auto simp: timer_output_eq to_inv_def to_levels_append distinct_adj_append_iff
        distinct_adj_Cons split: if_splits)
qed

lemma to_inv_timer_stop_count: "to_inv s \<Longrightarrow> to_inv (timer_stop_count s)"
  by (simp add: timer_stop_count_def Let_def to_inv_timer_output)

lemma to_inv_timer_reload_count: "to_inv s \<Longrightarrow> to_inv (timer_reload_count s)"
  by (simp add: timer_reload_count_def Let_def to_inv_timer_output to_inv_timer_stop_count)

lemma to_inv_timer_half_counted: "to_inv s \<Longrightarrow> to_inv (timer_half_counted s)"
  by (simp add: timer_half_counted_def Let_def to_inv_timer_output to_inv_timer_stop_count
      to_inv_timer_reload_count)

lemma to_inv_timer_tc: "to_inv s \<Longrightarrow> to_inv (timer_tc s)"
  by (simp add: timer_tc_def Let_def to_inv_timer_output)

lemma to_inv_write_command:
  assumes "to_inv s"
  shows "to_inv (write_command data s)"
proof -
  have "to_inv (s\<lparr>m_command := data,
                  cb_log := cb_log s @ port_flushes data (m_command s) (m_output s)\<rparr>)"
    using assms by (simp add: to_inv_def to_levels_append to_levels_port_flushes)
  then show ?thesis
    by (simp add: write_command_unfold to_inv_timer_stop_count to_inv_timer_reload_count)
qed

lemma to_inv_write_port: "to_inv s \<Longrightarrow> to_inv (write_port p data s)"
  by (cases p) (simp_all add: write_port_def Let_def)

lemma to_inv_register_w: "to_inv s \<Longrightarrow> to_inv (register_w offset data s)"
  by (simp add: register_w_def Let_def to_inv_write_command to_inv_write_port)

lemma to_inv_read_port: "to_inv s \<Longrightarrow> to_inv (snd (read_port h p s))"
  by (cases p) (simp_all add: read_port_def Let_def)

lemma to_inv_io_r: "to_inv s \<Longrightarrow> to_inv (snd (io_r sed h offset s))"
  using to_inv_read_port [of s h]
  by (simp add: io_r_def Let_def split: prod.split) (metis snd_conv)

lemma to_inv_device_reset: "to_inv s \<Longrightarrow> to_inv (device_reset s)"
  by (simp add: device_reset_def Let_def to_inv_register_w to_inv_timer_stop_count)

lemma to_inv_execute_timers: "to_inv s \<Longrightarrow> to_inv (execute_timers s)"
proof (induction s rule: execute_timers.induct)
  case (1 s)
  show ?case
  proof (cases "m_timer_tc s = Some 0")
    case True
    with 1 show ?thesis
      by (subst execute_timers.simps) (simp add: to_inv_timer_tc)
  next
    case tc: False
    show ?thesis
    proof (cases "m_timer s = Some 0")
      case True
      with tc 1 show ?thesis
        by (subst execute_timers.simps) (simp add: to_inv_timer_half_counted)
    next
      case False
      with tc 1 show ?thesis
        by (subst execute_timers.simps) simp
    qed
  qed
qed

lemma to_inv_tick: "to_inv s \<Longrightarrow> to_inv (tick s)"
  by (simp add: tick_def elapse_def to_inv_execute_timers)

lemma to_inv_apply_op: "to_inv s \<Longrightarrow> to_inv (apply_op x s)"
  by (cases x)
    (simp_all add: to_inv_device_reset ale_w_def data_r_def data_w_def io_w_def memory_w_def
      to_inv_io_r to_inv_register_w to_inv_tick)

lemma to_inv_run_ops: "to_inv s \<Longrightarrow> to_inv (run_ops ops s)"
  by (induction ops arbitrary: s) (simp_all add: to_inv_apply_op)

lemma to_inv_device_start: "to_inv (device_start io_m ad)"
  by (simp add: to_inv_def device_start_def)

text \<open>Claim C8. In every execution from power-on (resets, bus accesses and clock
  ticks in any order), the timer-output callback is never invoked with the level of
  its previous invocation, nor first with the power-on level 0: every invocation is a
  change of the driven level between 0 and 1, and the last level passed is the level
  the device holds.\<close>

theorem timer_output_callback_never_redundant:
  "distinct_adj (0 # to_levels (cb_log (run_ops ops (device_start io_m ad))))
   \<and> set (to_levels (cb_log (run_ops ops (device_start io_m ad)))) \<subseteq> {0, 1}
   \<and> last (0 # to_levels (cb_log (run_ops ops (device_start io_m ad))))
       = m_to (run_ops ops (device_start io_m ad))"
  using to_inv_run_ops [OF to_inv_device_start, of ops io_m ad]
  by (simp add: to_inv_def)

theorem timer_output_callback_never_redundant_witness:
  "to_levels (cb_log (run_ops [RESET, IO_W 4 2, IO_W 0 0xc0, TICK, TICK, TICK, IO_W 0 0x40]
      (device_start 0 0))) = [1, 0, 1]
   \<and> distinct_adj (0 # to_levels (cb_log
        (run_ops [RESET, IO_W 4 2, IO_W 0 0xc0, TICK, TICK, TICK, IO_W 0 0x40] (device_start 0 0))))
   \<and> m_to (run_ops [RESET, IO_W 4 2, IO_W 0 0xc0, TICK, TICK, TICK, IO_W 0 0x40]
        (device_start 0 0)) = 1"
proof -
  let ?ops = "[RESET, IO_W 4 2, IO_W 0 0xc0, TICK, TICK, TICK, IO_W 0 0x40]"
  have "cb_log (run_ops ?ops (device_start 0 0)) = [OUT_TO 1, OUT_TO 0, OUT_TO 1]"
    by (simp add: device_reset_def register_w_def io_w_def write_command_unfold
        port_flushes_def timer_stop_count_def timer_reload_count_def timer_output_eq tick_def
        elapse_def execute_timers_half execute_timers_idle timer_half_counted_def
        get_timer_mode_def device_start_def i8155_consts Let_def)
  then have "to_levels (cb_log (run_ops ?ops (device_start 0 0))) = [1, 0, 1]"
    by simp
  then show ?thesis
    using timer_output_callback_never_redundant [of ?ops 0 0] by simp
qed

subsection \<open>Square-wave modes\<close>

lemma count_masks: "(0x3fff :: 16 word) = mask 14" "(0x3ffe :: 16 word) = 2 * mask 13"
  by (simp_all add: mask_eq_exp_minus_1)

lemma half_floor:
  fixes w :: "16 word"
  shows "unat (drop_bit 1 (w AND 0x3ffe)) = unat (w AND 0x3fff) div 2"
proof -
  have "drop_bit 1 (w AND 0x3ffe) = drop_bit 1 (w AND 0x3fff)"
    unfolding count_masks by (rule bit_word_eqI) (auto simp: bit_simps bit_double_iff)
  then show ?thesis by (simp add: drop_bit_eq_div unat_div_distrib)
qed

lemma low_bit:
  fixes w :: "16 word"
  shows "unat (w AND 1) = unat (w AND 0x3fff) mod 2"
proof -
  have "w AND 1 = (w AND 0x3fff) AND 1"
    by (simp add: word_bw_assocs)
  also have "unat \<dots> = unat (w AND 0x3fff) mod 2"
    by (simp add: and_one_eq unat_mod_distrib)
  finally show ?thesis .
qed

lemma half_ceil:
  fixes w :: "16 word"
  shows "unat (drop_bit 1 (w AND 0x3ffe)) + unat (w AND 1) = (unat (w AND 0x3fff) + 1) div 2"
  unfolding half_floor low_bit by presburger

lemma count_valid:
  fixes w :: "16 word"
  shows "(w AND 0x3fff < 2) = (unat (w AND 0x3fff) < 2)"
  by (simp add: word_less_nat_alt)

lemma timer_reload_count_valid:
  assumes "2 \<le> unat (m_count_length s AND 0x3fff)"
  shows "timer_reload_count s =
           s\<lparr>m_count_loaded := m_count_length s, m_count_even_phase := False,
             m_timer := Some ((unat (m_count_length s AND 0x3fff) + 1) div 2),
             m_to := 1, cb_log := cb_log s @ (if m_to s = 1 then [] else [OUT_TO 1])\<rparr>"
  using assms unfolding timer_reload_count_def Let_def half_ceil count_valid
  by (simp add: timer_output_eq)

lemma odd_half_elapsed:
  assumes "\<not> m_count_even_phase s" and "get_timer_mode s AND TIMER_MODE_TC_PULSE = 0"
  shows "timer_half_counted s =
           s\<lparr>m_timer := Some (unat (m_count_loaded s AND 0x3fff) div 2),
             m_count_even_phase := True, m_to := 0,
             cb_log := cb_log s @ (if m_to s = 0 then [] else [OUT_TO 0])\<rparr>"
  using assms unfolding timer_half_counted_def Let_def half_floor
  by (simp add: timer_output_eq get_timer_mode_def)

lemma square_wave_first_half:
  assumes "m_timer r = Some c" and "m_timer_tc r = None" and "k < c"
  shows "run_clock k r = r\<lparr>m_timer := Some (c - k)\<rparr>"
  using assms by (subst run_clock_idle) (cases r, simp)+

lemma square_wave_half_count:
  assumes L: "2 \<le> unat (m_count_loaded r AND 0x3fff)"
    and mode: "get_timer_mode r AND TIMER_MODE_TC_PULSE = 0"
    and phase: "\<not> m_count_even_phase r" and "m_to r = 1"
    and t: "m_timer r = Some c" "0 < c" and tc: "m_timer_tc r = None"
  shows "run_clock c r =
           r\<lparr>m_timer := Some (unat (m_count_loaded r AND 0x3fff) div 2),
             m_count_even_phase := True, m_to := 0, cb_log := cb_log r @ [OUT_TO 0]\<rparr>"
proof -
  let ?h = "r\<lparr>m_timer := Some (unat (m_count_loaded r AND 0x3fff) div 2),
             m_count_even_phase := True, m_to := 0, cb_log := cb_log r @ [OUT_TO 0]\<rparr>"
  from t obtain n where c: "c = Suc n" by (cases c) simp_all
  have "timer_half_counted (r\<lparr>m_timer := None\<rparr>) = ?h"
    using phase mode \<open>m_to r = 1\<close>
    by (subst odd_half_elapsed) (simp_all add: get_timer_mode_def)
  moreover have "execute_timers ?h = ?h"
    using L tc by (intro execute_timers_idle) simp_all
  ultimately show ?thesis
    using run_clock_fire_half [of r n] t tc c by simp
qed

lemma even_half_elapsed:
  assumes "m_count_even_phase h" and "m_timer h = None" and "m_timer_tc h = None"
    and "2 \<le> unat (m_count_length h AND 0x3fff)"
  shows "timer_half_counted h =
     (if get_timer_mode h AND TIMER_MODE_AUTO_RELOAD = 0
         \<or> m_command h AND COMMAND_TM_MASK = COMMAND_TM_STOP_AFTER_TC
      then h\<lparr>m_count_even_phase := False, m_to := 1,
             cb_log := cb_log h @ (if m_to h = 1 then [] else [OUT_TO 1])\<rparr>
      else h\<lparr>m_count_loaded := m_count_length h, m_count_even_phase := False,
             m_timer := Some ((unat (m_count_length h AND 0x3fff) + 1) div 2), m_to := 1,
             cb_log := cb_log h @ (if m_to h = 1 then [] else [OUT_TO 1])\<rparr>)"
proof -
  let ?s1 = "(timer_output 1 h)\<lparr>m_count_even_phase := False\<rparr>"
  have s1: "?s1 = h\<lparr>m_count_even_phase := False, m_to := 1,
             cb_log := cb_log h @ (if m_to h = 1 then [] else [OUT_TO 1])\<rparr>"
    by (simp add: timer_output_eq)
  have stop: "timer_stop_count ?s1 = ?s1"
    using assms(2,3) unfolding s1
    by (cases h) (simp add: timer_stop_count_def timer_output_def Let_def)
  have reload: "timer_reload_count ?s1 =
      h\<lparr>m_count_loaded := m_count_length h, m_count_even_phase := False,
             m_timer := Some ((unat (m_count_length h AND 0x3fff) + 1) div 2), m_to := 1,
             cb_log := cb_log h @ (if m_to h = 1 then [] else [OUT_TO 1])\<rparr>"
    using assms(4) unfolding s1 by (subst timer_reload_count_valid) simp_all
  have "timer_half_counted h =
     (if get_timer_mode h AND TIMER_MODE_AUTO_RELOAD = 0
         \<or> m_command h AND COMMAND_TM_MASK = COMMAND_TM_STOP_AFTER_TC
      then timer_stop_count ?s1 else timer_reload_count ?s1)"
    using assms(1) by (simp add: timer_half_counted_def Let_def timer_output_eq get_timer_mode_def)
  then show ?thesis
    unfolding stop reload unfolding s1 .
qed

lemma just_reloaded_log [simp]: "just_reloaded (r\<lparr>cb_log := l\<rparr>) = just_reloaded r"
  by (simp add: just_reloaded_def get_timer_mode_def)

lemma just_reloaded_reload:
  assumes "2 \<le> unat (m_count_length s AND 0x3fff)"
    and "ucast (drop_bit 8 (m_count_length s)) AND TIMER_MODE_TC_PULSE = (0 :: 8 word)"
    and "m_timer_tc s = None"
  shows "just_reloaded (timer_reload_count s)"
  using assms
  by (simp add: timer_reload_count_valid just_reloaded_def get_timer_mode_def
      TIMER_MODE_MASK_def TIMER_MODE_TC_PULSE_def word_bw_assocs)

lemma square_wave_second_half:
  assumes r: "just_reloaded r"
    and k: "(unat (m_count_length r AND 0x3fff) + 1) div 2 \<le> k" "k < unat (m_count_length r AND 0x3fff)"
  shows "run_clock k r =
           r\<lparr>m_timer := Some (unat (m_count_length r AND 0x3fff) - k),
             m_count_even_phase := True, m_to := 0, cb_log := cb_log r @ [OUT_TO 0]\<rparr>"
proof -
  define L where "L = unat (m_count_length r AND 0x3fff)"
  define c where "c = (L + 1) div 2"
  let ?h = "r\<lparr>m_timer := Some (L div 2),
             m_count_even_phase := True, m_to := 0, cb_log := cb_log r @ [OUT_TO 0]\<rparr>"
  from r have L: "2 \<le> L" and fields: "m_count_loaded r = m_count_length r"
    "get_timer_mode r AND TIMER_MODE_TC_PULSE = 0" "\<not> m_count_even_phase r" "m_to r = 1"
    "m_timer r = Some c" "m_timer_tc r = None"
    by (simp_all add: just_reloaded_def L_def c_def)
  have c: "0 < c" "c + L div 2 = L" using L by (simp_all add: c_def)
  define j where "j = k - c"
  have j: "k = c + j" "j < L div 2"
    using k c by (simp_all add: j_def L_def [symmetric] c_def [symmetric])
  have "run_clock c r = ?h"
    using square_wave_half_count [of r c] L fields c by (simp add: L_def)
  then have "run_clock k r = run_clock j ?h"
    by (simp add: j run_clock_add)
  also have "\<dots> = ?h\<lparr>m_timer := Some (L div 2 - j)\<rparr>"
    using j fields by (intro square_wave_first_half) simp_all
  also have "L div 2 - j = L - k"
    using j c by simp
  finally show ?thesis by (simp add: L_def)
qed

lemma square_wave_terminal_count:
  assumes r: "just_reloaded r"
  shows "run_clock (unat (m_count_length r AND 0x3fff)) r =
     (if get_timer_mode r AND TIMER_MODE_AUTO_RELOAD = 0
         \<or> m_command r AND COMMAND_TM_MASK = COMMAND_TM_STOP_AFTER_TC
      then r\<lparr>m_timer := None, cb_log := cb_log r @ [OUT_TO 0, OUT_TO 1]\<rparr>
      else r\<lparr>cb_log := cb_log r @ [OUT_TO 0, OUT_TO 1]\<rparr>)"
proof -
  define L where "L = unat (m_count_length r AND 0x3fff)"
  define c where "c = (L + 1) div 2"
  let ?h = "r\<lparr>m_timer := Some (L div 2),
             m_count_even_phase := True, m_to := 0, cb_log := cb_log r @ [OUT_TO 0]\<rparr>"
  let ?e = "timer_half_counted (?h\<lparr>m_timer := None\<rparr>)"
  from r have L: "2 \<le> L" and fields: "m_count_loaded r = m_count_length r"
    "get_timer_mode r AND TIMER_MODE_TC_PULSE = 0" "\<not> m_count_even_phase r" "m_to r = 1"
    "m_timer r = Some c" "m_timer_tc r = None"
    by (simp_all add: just_reloaded_def L_def c_def)
  have c: "0 < c" "c + L div 2 = L" using L by (simp_all add: c_def)
  from L obtain n where n: "L div 2 = Suc n" by (cases "L div 2") auto
  have "run_clock c r = ?h"
    using square_wave_half_count [of r c] L fields c by (simp add: L_def)
  then have "run_clock L r = run_clock (L div 2) ?h"
    using run_clock_add [of c "L div 2" r] c by simp
  also have "\<dots> = execute_timers ?e"
    unfolding n using fields by (subst run_clock_fire_half) simp_all
  also have "?e =
     (if get_timer_mode r AND TIMER_MODE_AUTO_RELOAD = 0
         \<or> m_command r AND COMMAND_TM_MASK = COMMAND_TM_STOP_AFTER_TC
      then r\<lparr>m_timer := None, cb_log := cb_log r @ [OUT_TO 0, OUT_TO 1]\<rparr>
      else r\<lparr>cb_log := cb_log r @ [OUT_TO 0, OUT_TO 1]\<rparr>)"
    using fields L
    by (subst even_half_elapsed; cases r) (simp_all add: get_timer_mode_def L_def c_def)
  also have "execute_timers \<dots> = \<dots>"
    using fields c by (intro execute_timers_idle) (auto simp: c_def)
  finally show ?thesis by (simp add: L_def)
qed

lemma square_wave_periods:
  assumes "just_reloaded r"
    and "get_timer_mode r AND TIMER_MODE_AUTO_RELOAD \<noteq> 0"
    and "m_command r AND COMMAND_TM_MASK \<noteq> COMMAND_TM_STOP_AFTER_TC"
  shows "run_clock (n * unat (m_count_length r AND 0x3fff)) r =
           r\<lparr>cb_log := cb_log r @ concat (replicate n [OUT_TO 0, OUT_TO 1])\<rparr>"
  using assms
proof (induction n arbitrary: r)
  case 0
  show ?case by simp
next
  case (Suc n)
  let ?L = "unat (m_count_length r AND 0x3fff)"
  let ?r' = "r\<lparr>cb_log := cb_log r @ [OUT_TO 0, OUT_TO 1]\<rparr>"
  have "run_clock (Suc n * ?L) r = run_clock (n * ?L) (run_clock ?L r)"
    using run_clock_add [of ?L "n * ?L" r] by simp
  also have "run_clock ?L r = ?r'"
    using Suc.prems by (simp add: square_wave_terminal_count)
  also have "run_clock (n * ?L) ?r' =
      ?r'\<lparr>cb_log := cb_log ?r' @ concat (replicate n [OUT_TO 0, OUT_TO 1])\<rparr>"
    using Suc.IH [of ?r'] Suc.prems by (simp add: get_timer_mode_def)
  finally show ?case by simp
qed

lemma square_wave_level:
  assumes "just_reloaded r"
    and "get_timer_mode r AND TIMER_MODE_AUTO_RELOAD \<noteq> 0"
    and "m_command r AND COMMAND_TM_MASK \<noteq> COMMAND_TM_STOP_AFTER_TC"
  shows "m_to (run_clock k r) =
           (if k mod unat (m_count_length r AND 0x3fff)
                 < (unat (m_count_length r AND 0x3fff) + 1) div 2
            then 1 else 0)"
proof -
  let ?L = "unat (m_count_length r AND 0x3fff)"
  let ?r' = "r\<lparr>cb_log := cb_log r @ concat (replicate (k div ?L) [OUT_TO 0, OUT_TO 1])\<rparr>"
  from assms(1) have L: "2 \<le> ?L" by (simp add: just_reloaded_def)
  have r': "just_reloaded ?r'"
    using assms(1) by simp
  have fields: "m_count_length ?r' = m_count_length r"
    "m_timer ?r' = Some ((?L + 1) div 2)" "m_timer_tc ?r' = None" "m_to ?r' = 1"
    using assms(1) by (simp_all add: just_reloaded_def)
  have "run_clock k r = run_clock (k mod ?L) (run_clock (k div ?L * ?L) r)"
    using run_clock_add [of "k div ?L * ?L" "k mod ?L" r] by simp
  then have run: "run_clock k r = run_clock (k mod ?L) ?r'"
    using assms by (simp add: square_wave_periods)
  show ?thesis
  proof (cases "k mod ?L < (?L + 1) div 2")
    case True
    then show ?thesis
      unfolding run using fields
      by (subst square_wave_first_half [where c = "(?L + 1) div 2"]) simp_all
  next
    case False
    moreover have "k mod ?L < ?L" using L by simp
    ultimately show ?thesis
      unfolding run using square_wave_second_half [OF r', of "k mod ?L"] by simp
  qed
qed

lemma timer_reload_count_high: "m_to (timer_reload_count s) = 1"
  by (simp add: timer_reload_count_def Let_def timer_stop_count_stopped timer_output_eq)

lemma even_half_high: "m_count_even_phase s \<Longrightarrow> m_to (timer_half_counted s) = 1"
  by (simp add: timer_half_counted_def Let_def timer_stop_count_stopped timer_reload_count_high)

lemma stop_command_quiet:
  assumes "cmd AND COMMAND_TM_MASK = COMMAND_TM_STOP"
  shows "m_timer (write_command cmd s) = None \<and> m_to (write_command cmd s) = 1
         \<and> run_clock j (write_command cmd s) = write_command cmd s"
proof -
  have "m_timer (write_command cmd s) = None" "m_timer_tc (write_command cmd s) = None"
    "m_to (write_command cmd s) = 1"
    using assms by (simp_all add: write_command_unfold timer_stop_count_stopped)
  then show ?thesis by (simp add: run_clock_stopped)
qed

text \<open>Claim C1. Let the programmed count have a 14-bit length L of at least 2 and a
  mode without the TC_PULSE bit. A reload schedules the half-period event after
  ceil(L/2) ticks and leaves the output high; the half-period handler then reschedules
  for floor(L/2) ticks and drives the output low; the handler of the even half drives
  the output high again. On the clock, the output is high for the first ceil(L/2)
  ticks, low up to tick L, and high at tick L, with the two callbacks 0 and 1. With
  AUTO_RELOAD set and no stop-after-terminal-count command pending, the output at
  tick k is high exactly when k mod L is below ceil(L/2), the state after every n
  periods is the reloaded state with n more low/high callback pairs, and a Stop
  command at any tick halts the timer with the output high for good.\<close>

theorem square_wave_timing:
  assumes "2 \<le> unat (m_count_length s AND 0x3fff)"
    and "ucast (drop_bit 8 (m_count_length s)) AND TIMER_MODE_TC_PULSE = (0 :: 8 word)"
  shows "(let L = unat (m_count_length s AND 0x3fff);
              r = timer_reload_count s;
              h = timer_half_counted (r\<lparr>m_timer := None\<rparr>);
              e = timer_half_counted (h\<lparr>m_timer := None\<rparr>)
          in m_timer r = Some ((L + 1) div 2) \<and> m_to r = 1
             \<and> m_timer h = Some (L div 2) \<and> m_to h = 0
             \<and> m_to e = 1
             \<and> (m_timer_tc s = None \<longrightarrow>
                  (\<forall>k<L. m_to (run_clock k r) = (if k < (L + 1) div 2 then 1 else 0))
                  \<and> m_to (run_clock L r) = 1
                  \<and> to_levels (cb_log (run_clock L r)) = to_levels (cb_log r) @ [0, 1])
             \<and> (m_timer_tc s = None
                  \<and> ucast (drop_bit 8 (m_count_length s)) AND TIMER_MODE_AUTO_RELOAD \<noteq> (0 :: 8 word)
                  \<and> m_command s AND COMMAND_TM_MASK \<noteq> COMMAND_TM_STOP_AFTER_TC \<longrightarrow>
                  (\<forall>k. m_to (run_clock k r) = (if k mod L < (L + 1) div 2 then 1 else 0))
                  \<and> (\<forall>n. run_clock (n * L) r =
                        r\<lparr>cb_log := cb_log r @ concat (replicate n [OUT_TO 0, OUT_TO 1])\<rparr>)
                  \<and> (\<forall>k cmd j. cmd AND COMMAND_TM_MASK = COMMAND_TM_STOP \<longrightarrow>
                        m_timer (write_command cmd (run_clock k r)) = None
                        \<and> m_to (write_command cmd (run_clock k r)) = 1
                        \<and> run_clock j (write_command cmd (run_clock k r))
                            = write_command cmd (run_clock k r))))"
proof -
  define L where "L = unat (m_count_length s AND 0x3fff)"
  define r where "r = timer_reload_count s"
  define h where "h = timer_half_counted (r\<lparr>m_timer := None\<rparr>)"
  define e where "e = timer_half_counted (h\<lparr>m_timer := None\<rparr>)"
  have r: "r = s\<lparr>m_count_loaded := m_count_length s, m_count_even_phase := False,
             m_timer := Some ((L + 1) div 2), m_to := 1,
             cb_log := cb_log s @ (if m_to s = 1 then [] else [OUT_TO 1])\<rparr>"
    unfolding r_def L_def using assms(1) by (rule timer_reload_count_valid)
  have mode: "get_timer_mode r AND TIMER_MODE_TC_PULSE = 0"
    using assms(2)
    by (simp add: r get_timer_mode_def TIMER_MODE_MASK_def TIMER_MODE_TC_PULSE_def word_bw_assocs)
  have h: "h = r\<lparr>m_timer := Some (L div 2), m_count_even_phase := True, m_to := 0,
             cb_log := cb_log r @ [OUT_TO 0]\<rparr>"
    unfolding h_def using mode
    by (subst odd_half_elapsed) (simp_all add: r get_timer_mode_def L_def)
  have p1: "m_timer r = Some ((L + 1) div 2)" "m_to r = 1" by (simp_all add: r)
  have p2: "m_timer h = Some (L div 2)" "m_to h = 0" by (simp_all add: h)
  have p3: "m_to e = 1"
    unfolding e_def by (rule even_half_high) (simp add: h)
  have Lr: "unat (m_count_length r AND 0x3fff) = L" by (simp add: r L_def)
  have p4: "(\<forall>k<L. m_to (run_clock k r) = (if k < (L + 1) div 2 then 1 else 0))
            \<and> m_to (run_clock L r) = 1
            \<and> to_levels (cb_log (run_clock L r)) = to_levels (cb_log r) @ [0, 1]"
    if tc: "m_timer_tc s = None"
  proof -
    have jr: "just_reloaded r"
      unfolding r_def using assms tc by (rule just_reloaded_reload)
    have "m_to (run_clock k r) = (if k < (L + 1) div 2 then 1 else 0)" if "k < L" for k
    proof (cases "k < (L + 1) div 2")
      case True
      then show ?thesis
        using p1 tc by (subst square_wave_first_half [where c = "(L + 1) div 2"]) (simp_all add: r)
    next
      case False
      then show ?thesis
        using square_wave_second_half [OF jr, of k] that by (simp add: Lr)
    qed
    moreover have "m_to (run_clock L r) = 1"
      "to_levels (cb_log (run_clock L r)) = to_levels (cb_log r) @ [0, 1]"
      using square_wave_terminal_count [OF jr] p1
      by (simp_all add: Lr to_levels_append)
    ultimately show ?thesis by simp
  qed
  have p5: "(\<forall>k. m_to (run_clock k r) = (if k mod L < (L + 1) div 2 then 1 else 0))
            \<and> (\<forall>n. run_clock (n * L) r =
                  r\<lparr>cb_log := cb_log r @ concat (replicate n [OUT_TO 0, OUT_TO 1])\<rparr>)"
    if "m_timer_tc s = None
        \<and> ucast (drop_bit 8 (m_count_length s)) AND TIMER_MODE_AUTO_RELOAD \<noteq> (0 :: 8 word)
        \<and> m_command s AND COMMAND_TM_MASK \<noteq> COMMAND_TM_STOP_AFTER_TC"
  proof -
    have jr: "just_reloaded r"
      unfolding r_def using assms that by (intro just_reloaded_reload) simp_all
    have auto_reload: "get_timer_mode r AND TIMER_MODE_AUTO_RELOAD \<noteq> 0"
      using that
      by (simp add: r get_timer_mode_def TIMER_MODE_MASK_def TIMER_MODE_AUTO_RELOAD_def
          word_bw_assocs)
    have cmd: "m_command r AND COMMAND_TM_MASK \<noteq> COMMAND_TM_STOP_AFTER_TC"
      using that by (simp add: r)
    show ?thesis
      using square_wave_level [OF jr auto_reload cmd] square_wave_periods [OF jr auto_reload cmd]
      by (simp add: Lr)
  qed
  show ?thesis
    unfolding Let_def L_def [symmetric] r_def [symmetric] h_def [symmetric] e_def [symmetric]
    using p1 p2 p3 p4 p5 stop_command_quiet by blast
qed

theorem square_wave_timing_witness:
  "m_to (run_clock 0 (write_command 0xc0 (register_w 5 0x40 (register_w 4 100 (device_start 0 0))))) = 1
   \<and> m_to (run_clock 49 (write_command 0xc0 (register_w 5 0x40 (register_w 4 100 (device_start 0 0))))) = 1
   \<and> m_to (run_clock 50 (write_command 0xc0 (register_w 5 0x40 (register_w 4 100 (device_start 0 0))))) = 0
   \<and> m_to (run_clock 99 (write_command 0xc0 (register_w 5 0x40 (register_w 4 100 (device_start 0 0))))) = 0
   \<and> m_to (run_clock 100 (write_command 0xc0 (register_w 5 0x40 (register_w 4 100 (device_start 0 0))))) = 1
   \<and> m_to (run_clock 150 (write_command 0xc0 (register_w 5 0x40 (register_w 4 100 (device_start 0 0))))) = 0
   \<and> to_levels (cb_log (run_clock 200
         (write_command 0xc0 (register_w 5 0x40 (register_w 4 100 (device_start 0 0))))))
       = [1, 0, 1, 0, 1]
   \<and> m_timer (write_command 0x40 (run_clock 230
         (write_command 0xc0 (register_w 5 0x40 (register_w 4 100 (device_start 0 0))))))
       = None"
proof -
  let ?S = "(device_start 0 0)\<lparr>m_command := 0xc0, m_count_length := 0x4064\<rparr>"
  let ?W = "write_command 0xc0 (register_w 5 0x40 (register_w 4 100 (device_start 0 0)))"
  have W: "?W = timer_reload_count ?S"
    by (simp add: write_command_unfold register_w_def device_start_def port_flushes_def
        i8155_consts)
  have len: "unat (m_count_length ?S AND 0x3fff) = 100"
    by simp
  have h1: "2 \<le> unat (m_count_length ?S AND 0x3fff)"
    by simp
  have h2: "ucast (drop_bit 8 (m_count_length ?S)) AND TIMER_MODE_TC_PULSE = (0 :: 8 word)"
    by (simp add: TIMER_MODE_TC_PULSE_def)
  have h3: "m_timer_tc ?S = None
      \<and> ucast (drop_bit 8 (m_count_length ?S)) AND TIMER_MODE_AUTO_RELOAD \<noteq> (0 :: 8 word)
      \<and> m_command ?S AND COMMAND_TM_MASK \<noteq> COMMAND_TM_STOP_AFTER_TC"
    by (simp add: device_start_def i8155_consts)
  have stop: "0x40 AND COMMAND_TM_MASK = COMMAND_TM_STOP"
    by (simp add: i8155_consts)
  have log: "cb_log ?W = [OUT_TO 1]"
    unfolding W by (simp add: timer_reload_count_def timer_output_eq device_start_def)
  note th = square_wave_timing [OF h1 h2, unfolded Let_def len, folded W]
  from th h3 have level: "m_to (run_clock k ?W) = (if k mod 100 < 50 then 1 else 0)" for k
    by simp
  from th h3 have period: "run_clock (n * 100) ?W =
      ?W\<lparr>cb_log := cb_log ?W @ concat (replicate n [OUT_TO 0, OUT_TO 1])\<rparr>" for n
    by simp
  from th h3 stop have stopped: "m_timer (write_command 0x40 (run_clock 230 ?W)) = None"
    by blast
  have "to_levels (cb_log (run_clock 200 ?W)) = [1, 0, 1, 0, 1]"
    using period [of 2] by (simp add: log numeral_2_eq_2)
  then show ?thesis
    using level [of 0] level [of 49] level [of 50] level [of 99] level [of 100] level [of 150]
      stopped
    by simp
qed

subsection \<open>Single-pulse mode\<close>

lemma run_clock_fire_tc:
  assumes "m_timer_tc s = Some (Suc n)" and "m_timer s = Some m" and "Suc n < m"
  shows "run_clock (Suc n) s =
           execute_timers (timer_tc (s\<lparr>m_timer := Some (m - Suc n), m_timer_tc := None\<rparr>))"
proof -
  have "run_clock n s = s\<lparr>m_timer := Some (m - n), m_timer_tc := Some 1\<rparr>"
    using assms by (subst run_clock_idle) simp_all
  then have "run_clock (Suc n) s = tick (s\<lparr>m_timer := Some (m - n), m_timer_tc := Some 1\<rparr>)"
    using run_clock_add [of n 1 s] by simp
  also have "\<dots> = execute_timers (s\<lparr>m_timer := Some (m - Suc n), m_timer_tc := Some 0\<rparr>)"
    by (simp add: tick_def elapse_def)
  also have "\<dots> = execute_timers (timer_tc (s\<lparr>m_timer := Some (m - Suc n), m_timer_tc := None\<rparr>))"
    by (subst execute_timers_tc) simp_all
  finally show ?thesis .
qed

lemma timer_tc_effect:
  "m_status (timer_tc t) = m_status t OR STATUS_TIMER
   \<and> m_to (timer_tc t) = (if get_timer_mode t AND TIMER_MODE_TC_PULSE \<noteq> 0 then 0 else m_to t)
   \<and> cb_log (timer_tc t) =
       cb_log t @ (if get_timer_mode t AND TIMER_MODE_TC_PULSE \<noteq> 0 \<and> m_to t \<noteq> 0
                   then [OUT_TO 0] else [])"
  by (simp add: timer_tc_def timer_output_eq Let_def)

lemma timer_tc_pulse:
  assumes "get_timer_mode t AND TIMER_MODE_TC_PULSE \<noteq> 0" and "m_to t = 1"
  shows "timer_tc t = t\<lparr>m_to := 0, cb_log := cb_log t @ [OUT_TO 0],
                        m_status := m_status t OR STATUS_TIMER\<rparr>"
  using assms by (simp add: timer_tc_def timer_output_eq Let_def)

lemma odd_half_elapsed_pulse:
  assumes "\<not> m_count_even_phase s" and "get_timer_mode s AND TIMER_MODE_TC_PULSE \<noteq> 0"
  shows "timer_half_counted s =
           s\<lparr>m_timer := Some (unat (m_count_loaded s AND 0x3fff) div 2),
             m_count_even_phase := True,
             m_timer_tc := Some ((max (unat (m_count_loaded s AND 0x3ffe)) 2 - 2) div 2)\<rparr>"
  using assms unfolding timer_half_counted_def Let_def half_floor
  by (simp add: get_timer_mode_def)

lemma single_pulse_run:
  assumes loaded: "m_count_loaded r = 0x8064" and length: "m_count_length r = 0x8064"
    and phase: "\<not> m_count_even_phase r" and to: "m_to r = 1"
    and t: "m_timer r = Some 50" and tc: "m_timer_tc r = None"
  shows "k < 99 \<Longrightarrow> m_to (run_clock k r) = 1 \<and> cb_log (run_clock k r) = cb_log r
           \<and> m_status (run_clock k r) = m_status r"
    and "run_clock 99 r =
           r\<lparr>m_timer := Some 1, m_count_even_phase := True, m_to := 0,
             cb_log := cb_log r @ [OUT_TO 0], m_status := m_status r OR STATUS_TIMER\<rparr>"
    and "run_clock (100 + j) r =
           r\<lparr>m_timer := None, m_count_even_phase := False, m_to := 1,
             cb_log := cb_log r @ [OUT_TO 0, OUT_TO 1],
             m_status := m_status r OR STATUS_TIMER\<rparr>"
proof -
  let ?h = "r\<lparr>m_timer := Some 50, m_count_even_phase := True, m_timer_tc := Some 49\<rparr>"
  let ?p = "r\<lparr>m_timer := Some 1, m_count_even_phase := True, m_to := 0,
             cb_log := cb_log r @ [OUT_TO 0], m_status := m_status r OR STATUS_TIMER\<rparr>"
  let ?q = "r\<lparr>m_timer := None, m_count_even_phase := False, m_to := 1,
             cb_log := cb_log r @ [OUT_TO 0, OUT_TO 1],
             m_status := m_status r OR STATUS_TIMER\<rparr>"
  have mode: "get_timer_mode r = 0x80"
    by (simp add: get_timer_mode_def loaded TIMER_MODE_MASK_def)
  have len: "unat (m_count_loaded r AND 0x3fff) = 100" "unat (m_count_loaded r AND 0x3ffe) = 100"
    by (simp_all add: loaded)
  have A: "run_clock k r = r\<lparr>m_timer := Some (50 - k)\<rparr>" if "k < 50" for k
    using t tc that by (rule square_wave_first_half)
  have "timer_half_counted (r\<lparr>m_timer := None\<rparr>) = ?h"
    using phase mode tc
    by (subst odd_half_elapsed_pulse)
      (simp_all add: get_timer_mode_def loaded TIMER_MODE_MASK_def TIMER_MODE_TC_PULSE_def)
  moreover have "execute_timers ?h = ?h"
    by (rule execute_timers_idle) simp_all
  ultimately have B: "run_clock 50 r = ?h"
    using run_clock_fire_half [of r 49] t tc by simp
  have C: "run_clock i ?h = ?h\<lparr>m_timer := Some (50 - i), m_timer_tc := Some (49 - i)\<rparr>"
    if "i < 49" for i
    using that by (subst run_clock_idle) simp_all
  have "timer_tc (?h\<lparr>m_timer := Some 1, m_timer_tc := None\<rparr>) = ?p"
    using to tc
    by (subst timer_tc_pulse)
      (simp_all add: get_timer_mode_def loaded TIMER_MODE_MASK_def TIMER_MODE_TC_PULSE_def)
  moreover have "execute_timers ?p = ?p"
    using tc by (intro execute_timers_idle) simp_all
  ultimately have D: "run_clock 49 ?h = ?p"
    using run_clock_fire_tc [of ?h 48 50] by simp
  have "timer_half_counted (?p\<lparr>m_timer := None\<rparr>) = ?q"
    using tc
    by (subst even_half_elapsed)
      (simp_all add: get_timer_mode_def loaded length TIMER_MODE_MASK_def
        TIMER_MODE_AUTO_RELOAD_def)
  moreover have "execute_timers ?q = ?q"
    using tc by (intro execute_timers_idle) simp_all
  ultimately have E: "run_clock 1 ?p = ?q"
    using run_clock_fire_half [of ?p 0] tc by simp
  have F: "run_clock j ?q = ?q"
    using tc by (intro run_clock_stopped) simp_all
  show "run_clock 99 r = ?p"
    using run_clock_add [of 50 49 r] B D by simp
  then show "run_clock (100 + j) r = ?q"
    using run_clock_add [of 99 1 r] run_clock_add [of 100 j r] E F by simp
  show "m_to (run_clock k r) = 1 \<and> cb_log (run_clock k r) = cb_log r
           \<and> m_status (run_clock k r) = m_status r" if "k < 99"
  proof (cases "k < 50")
    case True
    then show ?thesis using to by (simp add: A)
  next
    case False
    with that have "run_clock k r = run_clock (k - 50) ?h" "k - 50 < 49"
      using run_clock_add [of 50 "k - 50" r] B by simp_all
    then show ?thesis using to by (simp add: C)
  qed
qed

text \<open>Claim C2. Let the timer be stopped and programmed with length 100 and mode
  TC_PULSE without AUTO_RELOAD, and let a Start command be written. The output is high
  and no callback is made during ticks 0 to 98; at tick 99 the terminal-count event
  drives the output low (the one transition to low) and sets status bit 6; at tick 100
  the even half ends, the output returns high and the timer halts, both events
  disabled; from then on nothing changes, so the callbacks after the start are exactly
  low, high. Whenever the terminal-count handler runs, it sets the status flag whatever
  the mode, and it drives the output low if and only if the mode has TC_PULSE.\<close>

theorem single_pulse_timing:
  assumes "m_timer s = None" and "m_timer_tc s = None"
    and "m_count_length s = 0x8064"
    and "cmd AND COMMAND_TM_MASK = COMMAND_TM_START"
  shows "(\<forall>k<99. m_to (run_clock k (write_command cmd s)) = 1
                 \<and> cb_log (run_clock k (write_command cmd s)) = cb_log (write_command cmd s)
                 \<and> m_status (run_clock k (write_command cmd s)) = m_status s)
         \<and> m_to (run_clock 99 (write_command cmd s)) = 0
         \<and> cb_log (run_clock 99 (write_command cmd s)) = cb_log (write_command cmd s) @ [OUT_TO 0]
         \<and> m_status (run_clock 99 (write_command cmd s)) = m_status s OR STATUS_TIMER
         \<and> (\<forall>j. m_timer (run_clock (100 + j) (write_command cmd s)) = None
                \<and> m_timer_tc (run_clock (100 + j) (write_command cmd s)) = None
                \<and> m_to (run_clock (100 + j) (write_command cmd s)) = 1
                \<and> cb_log (run_clock (100 + j) (write_command cmd s))
                    = cb_log (write_command cmd s) @ [OUT_TO 0, OUT_TO 1]
                \<and> m_status (run_clock (100 + j) (write_command cmd s))
                    = m_status s OR STATUS_TIMER)
         \<and> (\<forall>t. m_status (timer_tc t) = m_status t OR STATUS_TIMER
                \<and> m_to (timer_tc t)
                    = (if get_timer_mode t AND TIMER_MODE_TC_PULSE \<noteq> 0 then 0 else m_to t)
                \<and> cb_log (timer_tc t)
                    = cb_log t @ (if get_timer_mode t AND TIMER_MODE_TC_PULSE \<noteq> 0 \<and> m_to t \<noteq> 0
                                  then [OUT_TO 0] else []))"
proof -
  let ?s3 = "s\<lparr>m_command := cmd,
               cb_log := cb_log s @ port_flushes cmd (m_command s) (m_output s)\<rparr>"
  define r where "r = write_command cmd s"
  have "r = timer_reload_count ?s3"
    unfolding r_def using assms(1,4) by (simp add: write_command_unfold i8155_consts)
  also have "\<dots> = ?s3\<lparr>m_count_loaded := m_count_length ?s3, m_count_even_phase := False,
             m_timer := Some ((unat (m_count_length ?s3 AND 0x3fff) + 1) div 2),
             m_to := 1, cb_log := cb_log ?s3 @ (if m_to ?s3 = 1 then [] else [OUT_TO 1])\<rparr>"
    by (rule timer_reload_count_valid) (simp add: assms(3))
  finally have r: "m_count_loaded r = 0x8064" "m_count_length r = 0x8064"
    "\<not> m_count_even_phase r" "m_to r = 1" "m_timer r = Some 50" "m_timer_tc r = None"
    "m_status r = m_status s"
    by (simp_all add: assms)
  note run = single_pulse_run [OF r(1-6)]
  have "\<forall>k<99. m_to (run_clock k r) = 1 \<and> cb_log (run_clock k r) = cb_log r
                 \<and> m_status (run_clock k r) = m_status s"
    using run(1) r(7) by simp
  moreover have "m_to (run_clock 99 r) = 0" "cb_log (run_clock 99 r) = cb_log r @ [OUT_TO 0]"
    "m_status (run_clock 99 r) = m_status s OR STATUS_TIMER"
    by (simp_all add: run(2) r(7))
  moreover have "\<forall>j. m_timer (run_clock (100 + j) r) = None
                \<and> m_timer_tc (run_clock (100 + j) r) = None
                \<and> m_to (run_clock (100 + j) r) = 1
                \<and> cb_log (run_clock (100 + j) r) = cb_log r @ [OUT_TO 0, OUT_TO 1]
                \<and> m_status (run_clock (100 + j) r) = m_status s OR STATUS_TIMER"
    by (simp add: run(3) r(6,7))
  ultimately show ?thesis
    unfolding r_def using timer_tc_effect by blast
qed

theorem single_pulse_timing_witness:
  "m_timer (register_w 5 0x80 (register_w 4 100 (device_start 0 0))) = None
   \<and> m_count_length (register_w 5 0x80 (register_w 4 100 (device_start 0 0))) = 0x8064
   \<and> 0xc0 AND COMMAND_TM_MASK = COMMAND_TM_START
   \<and> m_to (run_clock 98
        (write_command 0xc0 (register_w 5 0x80 (register_w 4 100 (device_start 0 0))))) = 1
   \<and> m_to (run_clock 99
        (write_command 0xc0 (register_w 5 0x80 (register_w 4 100 (device_start 0 0))))) = 0
   \<and> m_status (run_clock 99
        (write_command 0xc0 (register_w 5 0x80 (register_w 4 100 (device_start 0 0))))) = 0x40
   \<and> m_to (run_clock 100
        (write_command 0xc0 (register_w 5 0x80 (register_w 4 100 (device_start 0 0))))) = 1
   \<and> m_timer (run_clock 100
        (write_command 0xc0 (register_w 5 0x80 (register_w 4 100 (device_start 0 0))))) = None
   \<and> to_levels (cb_log (run_clock 500
        (write_command 0xc0 (register_w 5 0x80 (register_w 4 100 (device_start 0 0))))))
       = [1, 0, 1]"
proof -
  let ?s = "register_w 5 0x80 (register_w 4 100 (device_start 0 0))"
  let ?W = "write_command 0xc0 ?s"
  have s: "?s = (device_start 0 0)\<lparr>m_count_length := 0x8064\<rparr>"
    by (simp add: register_w_def device_start_def)
  have h: "m_timer ?s = None" "m_timer_tc ?s = None" "m_count_length ?s = 0x8064"
    "0xc0 AND COMMAND_TM_MASK = COMMAND_TM_START"
    unfolding s by (simp_all add: device_start_def i8155_consts)
  have st: "m_status ?s = 0"
    unfolding s by (simp add: device_start_def)
  have log: "cb_log ?W = [OUT_TO 1]"
    unfolding s
    by (simp add: write_command_unfold timer_reload_count_def timer_output_eq port_flushes_def
        device_start_def i8155_consts)
  note th = single_pulse_timing [OF h]
  from th have a: "m_to (run_clock 98 ?W) = 1" by simp
  from th have b: "m_to (run_clock 99 ?W) = 0" "m_status (run_clock 99 ?W) = 0x40"
    by (simp_all add: st STATUS_TIMER_def)
  from th have c: "m_to (run_clock (100 + 0) ?W) = 1" "m_timer (run_clock (100 + 0) ?W) = None"
    "cb_log (run_clock (100 + 400) ?W) = cb_log ?W @ [OUT_TO 0, OUT_TO 1]"
    by blast+
  from c(3) have d: "to_levels (cb_log (run_clock 500 ?W)) = [1, 0, 1]"
    by (simp add: log)
  from a b c(1,2) d h show ?thesis by simp
qed

subsection \<open>Order of the two events\<close>

text \<open>In every state reached from power-on, a terminal-count event that is scheduled
  fires strictly before the half-period event, so the scheduler never has to order two
  events due at the same instant, and a timer whose half-period event is disabled has
  its terminal-count event disabled too: the stopped states that the timing results
  above start from are the states in which the timer is not running.\<close>

lemma events_ordered_iff:
  "events_ordered s \<longleftrightarrow>
     (m_timer s \<noteq> None \<longrightarrow> 2 \<le> unat (m_count_loaded s AND 0x3fff))
     \<and> (\<forall>a. m_timer_tc s = Some a \<longrightarrow> (\<exists>b. m_timer s = Some b \<and> a < b))"
  by (auto simp: events_ordered_def split: option.splits)

lemma events_ordered_frame [simp]:
  "events_ordered (s\<lparr>m_io_m := a\<rparr>) = events_ordered s"
  "events_ordered (s\<lparr>m_ad := b\<rparr>) = events_ordered s"
  "events_ordered (s\<lparr>m_command := c\<rparr>) = events_ordered s"
  "events_ordered (s\<lparr>m_status := d\<rparr>) = events_ordered s"
  "events_ordered (s\<lparr>m_output := e\<rparr>) = events_ordered s"
  "events_ordered (s\<lparr>m_ram := f\<rparr>) = events_ordered s"
  "events_ordered (s\<lparr>m_count_length := g\<rparr>) = events_ordered s"
  "events_ordered (s\<lparr>m_to := h\<rparr>) = events_ordered s"
  "events_ordered (s\<lparr>m_count_even_phase := i\<rparr>) = events_ordered s"
  "events_ordered (s\<lparr>cb_log := j\<rparr>) = events_ordered s"
  by (simp_all add: events_ordered_iff)

lemma events_pending_frame [simp]:
  "events_pending (s\<lparr>m_io_m := a\<rparr>) = events_pending s"
  "events_pending (s\<lparr>m_ad := b\<rparr>) = events_pending s"
  "events_pending (s\<lparr>m_command := c\<rparr>) = events_pending s"
  "events_pending (s\<lparr>m_status := d\<rparr>) = events_pending s"
  "events_pending (s\<lparr>m_output := e\<rparr>) = events_pending s"
  "events_pending (s\<lparr>m_ram := f\<rparr>) = events_pending s"
  "events_pending (s\<lparr>m_count_length := g\<rparr>) = events_pending s"
  "events_pending (s\<lparr>m_to := h\<rparr>) = events_pending s"
  "events_pending (s\<lparr>m_count_even_phase := i\<rparr>) = events_pending s"
  "events_pending (s\<lparr>cb_log := j\<rparr>) = events_pending s"
  by (simp_all add: events_pending_def)

lemma events_pending_call [simp]: "events_pending (call c s) = events_pending s"
  by (simp add: call_def)

lemma events_pending_timer_output [simp]:
  "events_pending (timer_output v s) = events_pending s"
  by (simp add: timer_output_eq)

lemma events_pending_stop: "events_pending (timer_stop_count s)"
  by (simp add: events_pending_def events_ordered_iff timer_stop_count_stopped)

lemma events_pending_reload:
  assumes "m_timer_tc s = None"
  shows "events_pending (timer_reload_count s)"
proof (cases "m_count_length s AND 0x3fff < 2")
  case True
  then show ?thesis
    by (simp add: timer_reload_count_degenerate events_pending_stop)
next
  case False
  then have "2 \<le> unat (m_count_length s AND 0x3fff)"
    by (simp add: count_valid)
  then show ?thesis
    using assms
    by (simp add: timer_reload_count_valid events_pending_def events_ordered_iff)
qed

lemma stopped_no_tc: "events_ordered s \<Longrightarrow> m_timer s = None \<Longrightarrow> m_timer_tc s = None"
  by (cases "m_timer_tc s") (auto simp: events_ordered_iff)

lemma events_pending_write_command:
  assumes "events_pending s"
  shows "events_pending (write_command data s)"
proof -
  let ?s3 = "s\<lparr>m_command := data,
               cb_log := cb_log s @ port_flushes data (m_command s) (m_output s)\<rparr>"
  have "m_timer_tc ?s3 = None" if "m_timer s = None"
    using assms that stopped_no_tc [of s] by (simp add: events_pending_def)
  then show ?thesis
    using assms
    by (simp add: write_command_unfold events_pending_stop events_pending_reload)
qed

lemma events_pending_register_w:
  "events_pending s \<Longrightarrow> events_pending (register_w offset data s)"
  by (simp add: register_w_def Let_def events_pending_write_command write_port_def
      split: port.split)

lemma events_pending_io_r:
  "events_pending s \<Longrightarrow> events_pending (snd (io_r sed h offset s))"
  by (simp add: io_r_def Let_def read_port_def split: prod.split port.split)

lemma events_pending_device_reset:
  "events_pending s \<Longrightarrow> events_pending (device_reset s)"
  by (simp add: device_reset_def Let_def events_pending_stop)

lemma even_count:
  fixes w :: "16 word"
  shows "unat (w AND 0x3ffe) = 2 * (unat (w AND 0x3fff) div 2)"
proof -
  have "w AND 0x3ffe = 2 * drop_bit 1 (w AND 0x3fff)"
    unfolding count_masks by (rule bit_word_eqI) (auto simp: bit_simps bit_double_iff)
  moreover have "unat (w AND 0x3fff) < 2 ^ 14"
    unfolding count_masks
    by (simp flip: take_bit_eq_mask add: unsigned_take_bit_eq take_bit_eq_mod unat_mod_distrib)
  ultimately show ?thesis
    by (simp add: unat_word_ariths drop_bit_eq_div unat_div_distrib)
qed

lemma events_ordered_half_counted:
  assumes "events_ordered s" and "m_timer s = Some 0"
  shows "events_ordered (timer_half_counted (s\<lparr>m_timer := None\<rparr>))"
proof -
  from assms have tc: "m_timer_tc s = None" and len: "2 \<le> unat (m_count_loaded s AND 0x3fff)"
    by (cases "m_timer_tc s"; auto simp: events_ordered_iff)+
  show ?thesis
  proof (cases "m_count_even_phase s")
    case True
    let ?s1 = "(timer_output 1 (s\<lparr>m_timer := None\<rparr>))\<lparr>m_count_even_phase := False\<rparr>"
    have "events_pending (timer_stop_count ?s1)" by (rule events_pending_stop)
    moreover have "events_pending (timer_reload_count ?s1)"
      using tc by (intro events_pending_reload) (simp add: timer_output_eq)
    ultimately show ?thesis
      using True by (simp add: timer_half_counted_def Let_def events_pending_def)
  next
    case False
    show ?thesis
    proof (cases "get_timer_mode s AND TIMER_MODE_TC_PULSE = 0")
      case True
      with False len tc show ?thesis
        by (subst odd_half_elapsed) (simp_all add: get_timer_mode_def events_ordered_iff)
    next
      case pulse: False
      with False len tc show ?thesis
        by (subst odd_half_elapsed_pulse)
          (auto simp: get_timer_mode_def events_ordered_iff even_count)
    qed
  qed
qed

lemma events_pending_execute_timers:
  "events_ordered s \<Longrightarrow> events_pending (execute_timers s)"
proof (induction s rule: execute_timers.induct)
  case (1 s)
  show ?case
  proof (cases "m_timer_tc s = Some 0")
    case True
    have "events_ordered (timer_tc (s\<lparr>m_timer_tc := None\<rparr>))"
      using "1.prems" by (simp add: timer_tc_def Let_def timer_output_eq events_ordered_iff)
    with True "1.IH"(1) show ?thesis
      by (simp add: execute_timers_tc)
  next
    case tc: False
    show ?thesis
    proof (cases "m_timer s = Some 0")
      case True
      with tc "1.IH"(2) "1.prems" show ?thesis
        by (simp add: execute_timers_half events_ordered_half_counted)
    next
      case False
      with tc "1.prems" show ?thesis
        by (simp add: execute_timers_idle events_pending_def)
    qed
  qed
qed

lemma events_pending_tick: "events_pending s \<Longrightarrow> events_pending (tick s)"
proof -
  assume "events_pending s"
  then have "events_ordered (elapse s)"
    by (cases "m_timer s"; cases "m_timer_tc s")
      (auto simp: events_pending_def events_ordered_iff elapse_def)
  then show ?thesis
    by (simp add: tick_def events_pending_execute_timers)
qed

lemma events_pending_apply_op: "events_pending s \<Longrightarrow> events_pending (apply_op x s)"
  by (cases x)
    (simp_all add: events_pending_device_reset ale_w_def data_r_def data_w_def io_w_def
      memory_w_def events_pending_io_r events_pending_register_w events_pending_tick)

lemma events_pending_run_ops: "events_pending s \<Longrightarrow> events_pending (run_ops ops s)"
  by (induction ops arbitrary: s) (simp_all add: events_pending_apply_op)

lemma stopped_means_both_disabled:
  assumes "m_timer (run_ops ops (device_start io_m ad)) = None"
  shows "m_timer_tc (run_ops ops (device_start io_m ad)) = None"
proof -
  have "events_pending (device_start io_m ad)"
    by (simp add: events_pending_def events_ordered_iff device_start_def)
  then have "events_ordered (run_ops ops (device_start io_m ad))"
    using events_pending_run_ops [of "device_start io_m ad" ops] by (simp add: events_pending_def)
  with assms show ?thesis by (rule stopped_no_tc [rotated])
qed

end
